theory Spec2Isabelle
  imports Complex_Main "HOL-Library.Word" "HOL-Library.Sublist"
begin

unbundle bit_operations_syntax

section \<open>Ticket 11: idempotency keys\<close>

subsection \<open>SHA-256, as \<^verbatim>\<open>hashlib.sha256\<close> computes it (FIPS 180-4)\<close>

text \<open>
  \<^verbatim>\<open>generate_composite_key\<close> hashes its input with \<^verbatim>\<open>hashlib.sha256\<close>. The digest is
  written out here on 32-bit words so that the key derivation is a closed, executable
  function. A Python \<^verbatim>\<open>str\<close> is modelled by the bytes of its UTF-8 encoding
  (\<^verbatim>\<open>raw.encode()\<close>), one \<^typ>\<open>char\<close> per byte.
\<close>

type_synonym w32 = "32 word"

definition Ch :: "w32 \<Rightarrow> w32 \<Rightarrow> w32 \<Rightarrow> w32" where
  "Ch x y z = (x AND y) XOR (NOT x AND z)"

definition Maj :: "w32 \<Rightarrow> w32 \<Rightarrow> w32 \<Rightarrow> w32" where
  "Maj x y z = (x AND y) XOR (x AND z) XOR (y AND z)"

definition big_sigma0 :: "w32 \<Rightarrow> w32" where
  "big_sigma0 x = word_rotr 2 x XOR word_rotr 13 x XOR word_rotr 22 x"

definition big_sigma1 :: "w32 \<Rightarrow> w32" where
  "big_sigma1 x = word_rotr 6 x XOR word_rotr 11 x XOR word_rotr 25 x"

definition small_sigma0 :: "w32 \<Rightarrow> w32" where
  "small_sigma0 x = word_rotr 7 x XOR word_rotr 18 x XOR drop_bit 3 x"

definition small_sigma1 :: "w32 \<Rightarrow> w32" where
  "small_sigma1 x = word_rotr 17 x XOR word_rotr 19 x XOR drop_bit 10 x"

text \<open>
  The round constants are the first 32 bits of the fractional parts of the cube roots of the
  first 64 primes, the initial state those of the square roots of the first 8 primes.
\<close>

definition sha256_K :: "w32 list" where
  "sha256_K =
    [1116352408, 1899447441, 3049323471, 3921009573, 961987163, 1508970993, 2453635748, 2870763221,
     3624381080, 310598401, 607225278, 1426881987, 1925078388, 2162078206, 2614888103, 3248222580,
     3835390401, 4022224774, 264347078, 604807628, 770255983, 1249150122, 1555081692, 1996064986,
     2554220882, 2821834349, 2952996808, 3210313671, 3336571891, 3584528711, 113926993, 338241895,
     666307205, 773529912, 1294757372, 1396182291, 1695183700, 1986661051, 2177026350, 2456956037,
     2730485921, 2820302411, 3259730800, 3345764771, 3516065817, 3600352804, 4094571909, 275423344,
     430227734, 506948616, 659060556, 883997877, 958139571, 1322822218, 1537002063, 1747873779,
     1955562222, 2024104815, 2227730452, 2361852424, 2428436474, 2756734187, 3204031479, 3329325298]"

type_synonym sha_state = "w32 \<times> w32 \<times> w32 \<times> w32 \<times> w32 \<times> w32 \<times> w32 \<times> w32"

definition sha256_init :: sha_state where
  "sha256_init =
    (1779033703, 3144134277, 1013904242, 2773480762, 1359893119, 2600822924, 528734635, 1541459225)"

fun sha256_round :: "sha_state \<Rightarrow> w32 \<times> w32 \<Rightarrow> sha_state" where
  "sha256_round (a, b, c, d, e, f, g, h) (k, w) =
     (let t1 = h + big_sigma1 e + Ch e f g + k + w;
          t2 = big_sigma0 a + Maj a b c
      in (t1 + t2, a, b, c, d + t1, e, f, g))"

text \<open>The message schedule: 16 words of the block, extended by \<open>n\<close> more.\<close>

fun schedule :: "nat \<Rightarrow> w32 list \<Rightarrow> w32 list" where
  "schedule 0 ws = ws"
| "schedule (Suc n) ws =
     (let t = length ws
      in schedule n (ws @ [small_sigma1 (ws ! (t - 2)) + ws ! (t - 7)
                           + small_sigma0 (ws ! (t - 15)) + ws ! (t - 16)]))"

fun add_state :: "sha_state \<Rightarrow> sha_state \<Rightarrow> sha_state" where
  "add_state (a, b, c, d, e, f, g, h) (a', b', c', d', e', f', g', h') =
     (a + a', b + b', c + c', d + d', e + e', f + f', g + g', h + h')"

definition compress :: "sha_state \<Rightarrow> w32 list \<Rightarrow> sha_state" where
  "compress st block = add_state st (foldl sha256_round st (zip sha256_K (schedule 48 block)))"

fun be_words :: "8 word list \<Rightarrow> w32 list" where
  "be_words (b0 # b1 # b2 # b3 # bs) =
     (push_bit 24 (ucast b0) OR push_bit 16 (ucast b1) OR push_bit 8 (ucast b2) OR ucast b3)
       # be_words bs"
| "be_words _ = []"

text \<open>Padding: a 1 bit, zeros up to 56 modulo 64 bytes, the bit length on 64 bits.\<close>

definition sha256_pad :: "8 word list \<Rightarrow> 8 word list" where
  "sha256_pad msg =
     (let l = length msg;
          bits = (word_of_nat (8 * l) :: 64 word)
      in msg @ [0x80] @ replicate ((119 - l mod 64) mod 64) 0
           @ map (\<lambda>i. ucast (drop_bit (8 * (7 - i)) bits)) [0..<8])"

fun blocks :: "nat \<Rightarrow> w32 list \<Rightarrow> w32 list list" where
  "blocks 0 ws = []"
| "blocks (Suc n) ws = take 16 ws # blocks n (drop 16 ws)"

definition sha256_digest :: "8 word list \<Rightarrow> sha_state" where
  "sha256_digest msg =
     (let ws = be_words (sha256_pad msg)
      in foldl compress sha256_init (blocks (length ws div 16) ws))"

definition hex_digit :: "nat \<Rightarrow> char" where
  "hex_digit n = ''0123456789abcdef'' ! n"

definition hex32 :: "w32 \<Rightarrow> string" where
  "hex32 w = map (\<lambda>i. hex_digit (unat (drop_bit (4 * (7 - i)) w AND 15))) [0..<8]"

fun state_hex :: "sha_state \<Rightarrow> string" where
  "state_hex (a, b, c, d, e, f, g, h) =
     hex32 a @ hex32 b @ hex32 c @ hex32 d @ hex32 e @ hex32 f @ hex32 g @ hex32 h"

definition encode :: "string \<Rightarrow> 8 word list" where
  "encode s = map of_char s"

definition sha256_hexdigest :: "string \<Rightarrow> string" where
  "sha256_hexdigest s = state_hex (sha256_digest (encode s))"

subsection \<open>Key derivation\<close>

text \<open>
  \<^verbatim>\<open>raw = f"{merchant_id}:{order_id}:{action}"\<close>, the string that is digested.
\<close>

definition composite_raw :: "string \<Rightarrow> string \<Rightarrow> string \<Rightarrow> string" where
  "composite_raw merchant_id order_id action = merchant_id @ '':'' @ order_id @ '':'' @ action"

text \<open>\<^verbatim>\<open>hashlib.sha256(raw.encode()).hexdigest()[:32]\<close>\<close>

definition generate_composite_key :: "string \<Rightarrow> string \<Rightarrow> string \<Rightarrow> string" where
  "generate_composite_key merchant_id order_id action =
     (let raw = composite_raw merchant_id order_id action
      in take 32 (sha256_hexdigest raw))"

text \<open>
  One protected payment, as the demos build it: the key is derived from the agency, the
  booking and the action (\<^verbatim>\<open>generate_composite_key(agency_id, booking_id, "create_payment")\<close>),
  while amount, currency and description are passed to \<^verbatim>\<open>create_payment_safely\<close> only.
\<close>

record payment_op =
  op_merchant_id :: string
  op_order_id :: string
  op_action :: string
  op_amount :: int
  op_currency :: string
  op_description :: string

definition derive_key :: "payment_op \<Rightarrow> string" where
  "derive_key op = generate_composite_key (op_merchant_id op) (op_order_id op) (op_action op)"


section \<open>The environment: Stripe errors, Python values, effects\<close>

text \<open>
  The scripts call the Stripe SDK, sleep, print and read the clock and the random generator.
  A call of the SDK returns a value or raises an exception of class \<^verbatim>\<open>stripe.error.StripeError\<close>
  or of one of its subclasses; the classes below are those of \<^verbatim>\<open>stripe.error\<close>, all direct
  subclasses of \<^verbatim>\<open>StripeError\<close>. What the remote side answers is a parameter of every
  model (an oracle), so that the theorems hold for every behaviour of the remote side.
\<close>

datatype stripe_error_class =
    StripeError | APIError | APIConnectionError | AuthenticationError | CardError
  | IdempotencyError | InvalidRequestError | PermissionError | RateLimitError
  | SignatureVerificationError

text \<open>\<^verbatim>\<open>type(e).__name__\<close>\<close>

fun class_name :: "stripe_error_class \<Rightarrow> string" where
  "class_name StripeError = ''StripeError''"
| "class_name APIError = ''APIError''"
| "class_name APIConnectionError = ''APIConnectionError''"
| "class_name AuthenticationError = ''AuthenticationError''"
| "class_name CardError = ''CardError''"
| "class_name IdempotencyError = ''IdempotencyError''"
| "class_name InvalidRequestError = ''InvalidRequestError''"
| "class_name PermissionError = ''PermissionError''"
| "class_name RateLimitError = ''RateLimitError''"
| "class_name SignatureVerificationError = ''SignatureVerificationError''"

definition issubclass :: "stripe_error_class \<Rightarrow> stripe_error_class \<Rightarrow> bool" where
  "issubclass c d = (c = d \<or> d = StripeError)"

text \<open>A raised Stripe exception: its class and \<^verbatim>\<open>str(e)\<close>.\<close>

record stripe_exc =
  exc_class :: stripe_error_class
  exc_str :: string

definition isinstance :: "stripe_exc \<Rightarrow> stripe_error_class \<Rightarrow> bool" where
  "isinstance e c = issubclass (exc_class e) c"

text \<open>
  Exceptions that leave a function of the scripts: a Stripe exception that no \<^verbatim>\<open>except\<close>
  clause catches, or the \<^verbatim>\<open>ValueError\<close> of \<^verbatim>\<open>time.sleep\<close> on a negative argument.
\<close>

datatype py_exception = StripeExc stripe_exc | ValueError string

text \<open>Python values stored in the dictionaries the scripts build.\<close>

datatype pyval = PNone | PBool bool | PInt int | PFloat real | PStr string

type_synonym pydict = "string \<rightharpoonup> pyval"

text \<open>The keyword arguments of \<^verbatim>\<open>stripe.PaymentIntent.create\<close> and \<^verbatim>\<open>stripe.Refund.create\<close>.\<close>

record pi_create_request =
  req_amount :: int
  req_currency :: string
  req_description :: string
  req_metadata :: "(string \<times> string) list"
  req_automatic_payment_methods_enabled :: bool
  req_idempotency_key :: string

record refund_request =
  rf_payment_intent :: string
  rf_amount :: int
  rf_reason :: string
  rf_metadata :: "(string \<times> string) list"

text \<open>
  The observable effects, in the order they happen: requests to the remote side
  (\<^verbatim>\<open>Wrapped_call k\<close> is the \<open>k\<close>-th invocation of the function wrapped by the retrier) and
  sleeps. \<open>console\<close> counts the calls of \<^verbatim>\<open>print\<close>; the printed text is not modelled.
\<close>

datatype remote_call =
    PaymentIntent_create pi_create_request
  | PaymentIntent_retrieve string
  | Refund_create refund_request
  | Wrapped_call nat

datatype event = Request remote_call | Sleep real

record world =
  trace :: "event list"
  console :: nat

definition remote_call :: "remote_call \<Rightarrow> world \<Rightarrow> world" where
  "remote_call c w = w\<lparr>trace := trace w @ [Request c]\<rparr>"

definition print_lines :: "nat \<Rightarrow> world \<Rightarrow> world" where
  "print_lines n w = w\<lparr>console := console w + n\<rparr>"

text \<open>\<^verbatim>\<open>time.sleep(secs)\<close> raises \<^verbatim>\<open>ValueError\<close> on a negative argument.\<close>

definition time_sleep :: "real \<Rightarrow> world \<Rightarrow> py_exception + world" where
  "time_sleep secs w =
     (if secs < 0 then Inl (ValueError ''sleep length must be non-negative'')
      else Inr (w\<lparr>trace := trace w @ [Sleep secs]\<rparr>))"

text \<open>
  Floats are idealised as reals. \<^verbatim>\<open>round(x)\<close> rounds half to even; \<^verbatim>\<open>round(x, 2)\<close> likewise
  on hundredths. \<^verbatim>\<open>random.uniform(a, b)\<close> is \<^verbatim>\<open>a + (b - a) * random()\<close>, where the draw
  \<open>u\<close> of \<^verbatim>\<open>random()\<close> comes from the environment.
\<close>

definition py_round :: "real \<Rightarrow> int" where
  "py_round x =
     (let f = \<lfloor>x\<rfloor>; d = x - of_int f
      in if d < 1 / 2 then f else if 1 / 2 < d then f + 1 else if even f then f else f + 1)"

definition py_round2 :: "real \<Rightarrow> real" where
  "py_round2 x = of_int (py_round (x * 100)) / 100"

definition uniform :: "real \<Rightarrow> real \<Rightarrow> real \<Rightarrow> real" where
  "uniform a b u = a + (b - a) * u"

section \<open>create_payment_safely\<close>

text \<open>The fields of the created PaymentIntent that the function reads.\<close>

record payment_intent_obj =
  pio_id :: string
  pio_amount :: int
  pio_status :: string

text \<open>Lines 89-100: the request that \<^verbatim>\<open>create_payment_safely\<close> sends.\<close>

definition create_request :: "int \<Rightarrow> string \<Rightarrow> string \<Rightarrow> string \<Rightarrow> pi_create_request" where
  "create_request amount currency description idempotency_key =
     \<lparr>req_amount = amount, req_currency = currency, req_description = description,
      req_metadata = [(''idempotency_key'', idempotency_key),
                      (''source'', ''travelbook_booking_engine'')],
      req_automatic_payment_methods_enabled = True,
      req_idempotency_key = idempotency_key\<rparr>"

text \<open>
  Lines 81-121. \<open>remote\<close> is the answer of Stripe to the request. The \<^verbatim>\<open>except\<close> clauses
  are tried in the source's order; an exception matching none of them would propagate.
\<close>

definition create_payment_safely ::
  "(pi_create_request \<Rightarrow> stripe_exc + payment_intent_obj) \<Rightarrow>
     int \<Rightarrow> string \<Rightarrow> string \<Rightarrow> string \<Rightarrow> string option \<Rightarrow> world \<Rightarrow>
     (py_exception + pydict) \<times> world" where
  "create_payment_safely remote amount currency description idempotency_key customer_email w =
     (let req = create_request amount currency description idempotency_key;
          w' = remote_call (PaymentIntent_create req) w
      in case remote req of
           Inr payment_intent \<Rightarrow>
             (Inr [''success'' \<mapsto> PBool True,
                   ''payment_intent_id'' \<mapsto> PStr (pio_id payment_intent),
                   ''amount'' \<mapsto> PInt (pio_amount payment_intent),
                   ''status'' \<mapsto> PStr (pio_status payment_intent),
                   ''idempotency_key'' \<mapsto> PStr idempotency_key], w')
         | Inl e \<Rightarrow>
             if isinstance e IdempotencyError then
               (Inr [''success'' \<mapsto> PBool False,
                     ''error_type'' \<mapsto> PStr ''idempotency_collision'',
                     ''message'' \<mapsto> PStr (exc_str e),
                     ''idempotency_key'' \<mapsto> PStr idempotency_key], w')
             else if isinstance e StripeError then
               (Inr [''success'' \<mapsto> PBool False,
                     ''error_type'' \<mapsto> PStr (class_name (exc_class e)),
                     ''message'' \<mapsto> PStr (exc_str e),
                     ''idempotency_key'' \<mapsto> PStr idempotency_key], w')
             else (Inl (StripeExc e), w'))"

section \<open>retry_with_backoff\<close>

text \<open>
  Lines 179-231. What the environment gives at attempt \<open>k\<close>: the outcome of
  \<^verbatim>\<open>func(**kwargs)\<close> (a dictionary, or a raised Stripe exception, the wrapped function being
  a Stripe API call), the measured \<^verbatim>\<open>time.time() - start\<close>, and the draw of the random
  generator used by \<^verbatim>\<open>random.uniform(0, 0.5)\<close>.
\<close>

record attempt_obs =
  call_outcome :: "stripe_exc + pydict"
  elapsed :: real
  random_u :: real

text \<open>Line 204: \<^verbatim>\<open>base_delay * (2 ** (attempt - 1)) + random.uniform(0, 0.5)\<close>.\<close>

definition backoff_delay :: "real \<Rightarrow> nat \<Rightarrow> real \<Rightarrow> real" where
  "backoff_delay base_delay attempt u = base_delay * (2 ^ (attempt - 1)) + uniform 0 (1 / 2) u"

text \<open>The three dictionaries appended to \<^verbatim>\<open>audit_log\<close> (lines 192-197, 206-212, 224-229).\<close>

definition success_entry :: "nat \<Rightarrow> attempt_obs \<Rightarrow> pydict \<Rightarrow> pydict" where
  "success_entry attempt obs result =
     [''attempt'' \<mapsto> PInt (int attempt),
      ''status'' \<mapsto> PStr ''success'',
      ''elapsed_ms'' \<mapsto> PInt (py_round (elapsed obs * 1000)),
      ''payment_intent_id'' \<mapsto> (case result ''payment_intent_id'' of None \<Rightarrow> PNone | Some v \<Rightarrow> v)]"

definition connection_error_entry :: "nat \<Rightarrow> attempt_obs \<Rightarrow> real \<Rightarrow> stripe_exc \<Rightarrow> pydict" where
  "connection_error_entry attempt obs delay e =
     [''attempt'' \<mapsto> PInt (int attempt),
      ''status'' \<mapsto> PStr ''connection_error'',
      ''elapsed_ms'' \<mapsto> PInt (py_round (elapsed obs * 1000)),
      ''retry_delay_s'' \<mapsto> PFloat (py_round2 delay),
      ''error'' \<mapsto> PStr (exc_str e)]"

definition stripe_error_entry :: "nat \<Rightarrow> attempt_obs \<Rightarrow> stripe_exc \<Rightarrow> pydict" where
  "stripe_error_entry attempt obs e =
     [''attempt'' \<mapsto> PInt (int attempt),
      ''status'' \<mapsto> PStr ''stripe_error'',
      ''elapsed_ms'' \<mapsto> PInt (py_round (elapsed obs * 1000)),
      ''error'' \<mapsto> PStr (exc_str e)]"

text \<open>
  The loop \<^verbatim>\<open>for attempt in range(1, max_retries + 1)\<close>. The function returns the pair
  \<^verbatim>\<open>(result, audit_log)\<close> or \<^verbatim>\<open>(None, audit_log)\<close>; when the range is empty it falls off
  the end and returns \<^verbatim>\<open>None\<close> (\<open>Inr None\<close>).
\<close>

type_synonym retry_return = "py_exception + (pydict option \<times> pydict list) option"

function retry_loop ::
  "(nat \<Rightarrow> attempt_obs) \<Rightarrow> nat \<Rightarrow> real \<Rightarrow> nat \<Rightarrow> pydict list \<Rightarrow> world \<Rightarrow> retry_return \<times> world" where
  "retry_loop env max_retries base_delay attempt audit_log w =
     (if max_retries < attempt then (Inr None, w)
      else
        let obs = env attempt;
            w1 = remote_call (Wrapped_call attempt) w
        in case call_outcome obs of
             Inr result \<Rightarrow>
               (Inr (Some (Some result, audit_log @ [success_entry attempt obs result])), w1)
           | Inl e \<Rightarrow>
               if isinstance e APIConnectionError then
                 let delay = backoff_delay base_delay attempt (random_u obs);
                     audit_log' = audit_log @ [connection_error_entry attempt obs delay e]
                 in if attempt < max_retries then
                      (case time_sleep delay (print_lines 1 w1) of
                         Inl err \<Rightarrow> (Inl err, print_lines 1 w1)
                       | Inr w2 \<Rightarrow> retry_loop env max_retries base_delay (Suc attempt) audit_log' w2)
                    else (Inr (Some (None, audit_log')), print_lines 1 w1)
               else if isinstance e StripeError then
                 (Inr (Some (None, audit_log @ [stripe_error_entry attempt obs e])), w1)
               else (Inl (StripeExc e), w1))"
  by pat_completeness auto
termination
  by (relation "measure (\<lambda>(env, max_retries, base_delay, attempt, audit_log, w). Suc max_retries - attempt)")
     auto

declare retry_loop.simps [simp del]

definition retry_with_backoff ::
  "(nat \<Rightarrow> attempt_obs) \<Rightarrow> nat \<Rightarrow> real \<Rightarrow> world \<Rightarrow> retry_return \<times> world" where
  "retry_with_backoff env max_retries base_delay w = retry_loop env max_retries base_delay 1 [] w"

section \<open>Notions used to state the properties\<close>

definition emit :: "event list \<Rightarrow> world \<Rightarrow> world" where
  "emit evs w = w\<lparr>trace := trace w @ evs\<rparr>"

text \<open>The requests and the sleeps of a trace.\<close>

fun requests_of :: "event list \<Rightarrow> remote_call list" where
  "requests_of [] = []"
| "requests_of (Request c # evs) = c # requests_of evs"
| "requests_of (Sleep s # evs) = requests_of evs"

fun sleeps_of :: "event list \<Rightarrow> real list" where
  "sleeps_of [] = []"
| "sleeps_of (Request c # evs) = sleeps_of evs"
| "sleeps_of (Sleep s # evs) = s # sleeps_of evs"

text \<open>
  A transient failure is a raised \<^verbatim>\<open>APIConnectionError\<close>. \<open>attempt_delay\<close> is the delay computed
  at attempt \<open>k\<close>; \<open>backoff_events\<close> is the trace of failing attempts each followed by its
  sleep; \<open>connection_error_entries\<close> are their log entries.
\<close>

definition is_transient :: "attempt_obs \<Rightarrow> bool" where
  "is_transient obs = (case call_outcome obs of Inl e \<Rightarrow> isinstance e APIConnectionError | Inr r \<Rightarrow> False)"

definition attempt_delay :: "(nat \<Rightarrow> attempt_obs) \<Rightarrow> real \<Rightarrow> nat \<Rightarrow> real" where
  "attempt_delay env base_delay k = backoff_delay base_delay k (random_u (env k))"

definition backoff_events :: "(nat \<Rightarrow> attempt_obs) \<Rightarrow> real \<Rightarrow> nat list \<Rightarrow> event list" where
  "backoff_events env base_delay ks =
     concat (map (\<lambda>k. [Request (Wrapped_call k), Sleep (attempt_delay env base_delay k)]) ks)"

definition connection_error_entries ::
  "(nat \<Rightarrow> attempt_obs) \<Rightarrow> real \<Rightarrow> nat list \<Rightarrow> pydict list" where
  "connection_error_entries env base_delay ks =
     map (\<lambda>k. connection_error_entry k (env k) (attempt_delay env base_delay k)
                 (projl (call_outcome (env k)))) ks"

text \<open>Reading a log entry.\<close>

definition attempt_of :: "pydict \<Rightarrow> pyval option" where
  "attempt_of d = d ''attempt''"

definition elapsed_ms_of :: "pydict \<Rightarrow> pyval option" where
  "elapsed_ms_of d = d ''elapsed_ms''"

text \<open>Concrete inputs used to evaluate the model.\<close>

definition w0 :: world where
  "w0 = \<lparr>trace = [], console = 0\<rparr>"

definition timeout_error :: stripe_exc where
  "timeout_error = \<lparr>exc_class = APIConnectionError, exc_str = ''Connection timed out''\<rparr>"

definition collision_error :: stripe_exc where
  "collision_error = \<lparr>exc_class = IdempotencyError, exc_str = ''Keys for idempotent requests can only be used with the same parameters''\<rparr>"

definition always_timeout :: "nat \<Rightarrow> attempt_obs" where
  "always_timeout k = \<lparr>call_outcome = Inl timeout_error, elapsed = 3 / 100, random_u = 9 / 10\<rparr>"

definition always_collision :: "nat \<Rightarrow> attempt_obs" where
  "always_collision k = \<lparr>call_outcome = Inl collision_error, elapsed = 3 / 100, random_u = 9 / 10\<rparr>"


section \<open>Ticket 12: bulk refunds\<close>

text \<open>
  The fields of a retrieved PaymentIntent (with \<^verbatim>\<open>latest_charge\<close> expanded) that the script
  reads.
\<close>

record charge =
  charge_id :: string
  amount_refunded :: int

record payment_intent =
  pi_ident :: string
  pi_status :: string
  pi_amount :: int
  latest_charge :: "charge option"
  pi_metadata :: "string \<rightharpoonup> string"
  pi_description :: string
  pi_created :: int

text \<open>The dictionaries appended to \<^verbatim>\<open>eligible\<close> (lines 132-142) and \<^verbatim>\<open>skipped\<close>.\<close>

record eligible_payment =
  pi_id :: string
  e_charge_id :: "string option"
  amount :: int
  already_refunded :: int
  refundable :: int
  order_id :: string
  customer_email :: string
  description :: string
  created :: int

record skipped_payment =
  skip_pi_id :: string
  reason :: string

text \<open>\<^verbatim>\<open>f"Status is '{pi.status}', not 'succeeded'"\<close>\<close>

definition status_reason :: "string \<Rightarrow> string" where
  "status_reason status = ''Status is '' @ [CHR 0x27] @ status @ [CHR 0x27] @ '', not ''
      @ [CHR 0x27] @ ''succeeded'' @ [CHR 0x27]"

text \<open>\<^verbatim>\<open>d.get(k, "N/A")\<close>\<close>

definition get_or_NA :: "(string \<rightharpoonup> string) \<Rightarrow> string \<Rightarrow> string" where
  "get_or_NA d k = (case d k of None \<Rightarrow> ''N/A'' | Some v \<Rightarrow> v)"

text \<open>
  Line 122, \<^verbatim>\<open>charge.amount_refunded if charge else 0\<close>, and lines 132-142, the dictionary
  appended to \<^verbatim>\<open>eligible\<close>. \<^verbatim>\<open>created\<close> is kept as the timestamp that
  \<^verbatim>\<open>datetime.fromtimestamp\<close> converts.
\<close>

definition already_refunded_of :: "payment_intent \<Rightarrow> int" where
  "already_refunded_of intent =
     (case latest_charge intent of Some c \<Rightarrow> amount_refunded c | None \<Rightarrow> 0)"

definition eligible_entry :: "payment_intent \<Rightarrow> eligible_payment" where
  "eligible_entry intent =
     \<lparr>pi_id = pi_ident intent,
      e_charge_id = map_option charge_id (latest_charge intent),
      amount = pi_amount intent,
      already_refunded = already_refunded_of intent,
      refundable = pi_amount intent - already_refunded_of intent,
      order_id = get_or_NA (pi_metadata intent) ''order_id'',
      customer_email = get_or_NA (pi_metadata intent) ''customer_email'',
      description = pi_description intent,
      created = pi_created intent\<rparr>"

text \<open>
  Lines 110-142, the loop over \<^verbatim>\<open>test_pi_ids\<close>. \<open>remote\<close> is the answer of
  \<^verbatim>\<open>stripe.PaymentIntent.retrieve\<close>; an exception it raises is not caught and leaves the
  function. The status is tested first, the refunded amount second.
\<close>

fun discover_loop ::
  "(string \<Rightarrow> stripe_exc + payment_intent) \<Rightarrow> string list \<Rightarrow>
     eligible_payment list \<Rightarrow> skipped_payment list \<Rightarrow> world \<Rightarrow>
     (py_exception + eligible_payment list \<times> skipped_payment list) \<times> world" where
  "discover_loop remote [] eligible skipped w = (Inr (eligible, skipped), w)"
| "discover_loop remote (pid # rest) eligible skipped w =
     (let w1 = remote_call (PaymentIntent_retrieve pid) w
      in case remote pid of
           Inl e \<Rightarrow> (Inl (StripeExc e), w1)
         | Inr intent \<Rightarrow>
             if pi_status intent \<noteq> ''succeeded'' then
               discover_loop remote rest eligible
                 (skipped @ [\<lparr>skip_pi_id = pi_ident intent,
                               reason = status_reason (pi_status intent)\<rparr>]) w1
             else if pi_amount intent - already_refunded_of intent \<le> 0 then
               discover_loop remote rest eligible
                 (skipped @ [\<lparr>skip_pi_id = pi_ident intent,
                               reason = ''Already fully refunded''\<rparr>]) w1
             else
               discover_loop remote rest (eligible @ [eligible_entry intent]) skipped w1)"

text \<open>
  Lines 92-159. \<^verbatim>\<open>if test_pi_ids:\<close> is false for \<^verbatim>\<open>None\<close> and for the empty list. Six lines
  are printed before the loop; after it one line, three per eligible payment and, when a
  payment was skipped, one line and one per skipped payment.
\<close>

definition discover_eligible_payments ::
  "(string \<Rightarrow> stripe_exc + payment_intent) \<Rightarrow> string list option \<Rightarrow> world \<Rightarrow>
     (py_exception + eligible_payment list \<times> skipped_payment list) \<times> world" where
  "discover_eligible_payments remote test_pi_ids w =
     (let w0 = print_lines 6 w;
          found = (case test_pi_ids of
                     Some (pid # rest) \<Rightarrow> discover_loop remote (pid # rest) [] [] w0
                   | _ \<Rightarrow> (Inr ([], []), w0))
      in case found of
           (Inl e, w1) \<Rightarrow> (Inl e, w1)
         | (Inr (eligible, skipped), w1) \<Rightarrow>
             (Inr (eligible, skipped),
              print_lines (1 + 3 * length eligible
                             + (if skipped \<noteq> [] then 1 + length skipped else 0)) w1))"

text \<open>
  Lines 166-198. The function reads \<^verbatim>\<open>eligible\<close>, prints the preview (sixteen lines, and
  one line plus one per partial refund when there is one) and returns the total.
\<close>

definition dry_run :: "eligible_payment list \<Rightarrow> world \<Rightarrow> int \<times> world" where
  "dry_run eligible w =
     (let total_refund = sum_list (map refundable eligible);
          full_refunds = filter (\<lambda>p. already_refunded p = 0) eligible;
          partial_refunds = filter (\<lambda>p. already_refunded p > 0) eligible;
          w1 = print_lines 14 w;
          w2 = (if partial_refunds \<noteq> [] then print_lines (1 + length partial_refunds) w1 else w1)
      in (total_refund, print_lines 2 w2))"

text \<open>
  Lines 205-279. What the environment gives for the \<open>i\<close>-th payment: the outcome of
  \<^verbatim>\<open>stripe.Refund.create\<close> and the two readings of \<^verbatim>\<open>datetime.now().isoformat()\<close>.
\<close>

record refund =
  refund_id :: string
  refund_status :: string

record refund_obs =
  outcome :: "stripe_exc + refund"
  processed_at :: string
  stamp :: string

record succeeded_entry =
  s_order_id :: string
  s_pi_id :: string
  s_refund_id :: string
  s_amount :: int
  s_type :: string
  s_customer_email :: string
  s_status :: string
  s_timestamp :: string

record failed_entry =
  f_order_id :: string
  f_pi_id :: string
  f_error :: string
  f_customer_email :: string
  f_timestamp :: string

record results =
  succeeded :: "succeeded_entry list"
  failed :: "failed_entry list"

definition refund_request_of :: "eligible_payment \<Rightarrow> string \<Rightarrow> refund_request" where
  "refund_request_of payment now =
     \<lparr>rf_payment_intent = pi_id payment,
      rf_amount = refundable payment,
      rf_reason = ''fraudulent'',
      rf_metadata = [(''recall_reference'', ''RECALL-2026-NB-PRO3000''),
                     (''product'', ''nordbrew_pro_3000''),
                     (''order_id'', order_id payment),
                     (''customer_email'', customer_email payment),
                     (''refund_type'', if already_refunded payment = 0 then ''full''
                                       else ''partial_remainder''),
                     (''processed_at'', now)]\<rparr>"

definition succeeded_entry_of :: "eligible_payment \<Rightarrow> refund \<Rightarrow> string \<Rightarrow> succeeded_entry" where
  "succeeded_entry_of payment r now =
     \<lparr>s_order_id = order_id payment,
      s_pi_id = pi_id payment,
      s_refund_id = refund_id r,
      s_amount = refundable payment,
      s_type = (if already_refunded payment = 0 then ''FULL'' else ''PARTIAL''),
      s_customer_email = customer_email payment,
      s_status = refund_status r,
      s_timestamp = now\<rparr>"

definition failed_entry_of :: "eligible_payment \<Rightarrow> stripe_exc \<Rightarrow> string \<Rightarrow> failed_entry" where
  "failed_entry_of payment e now =
     \<lparr>f_order_id = order_id payment,
      f_pi_id = pi_id payment,
      f_error = exc_str e,
      f_customer_email = customer_email payment,
      f_timestamp = now\<rparr>"

text \<open>
  The loop \<^verbatim>\<open>for i, payment in enumerate(eligible, 1)\<close>. The pause
  \<^verbatim>\<open>if i % 20 == 0: ... time.sleep(1)\<close> stands inside the \<^verbatim>\<open>try\<close> block, after the entry of a
  succeeded refund is appended.
\<close>

fun execute_loop ::
  "(nat \<Rightarrow> refund_obs) \<Rightarrow> nat \<Rightarrow> eligible_payment list \<Rightarrow> results \<Rightarrow> world \<Rightarrow>
     (py_exception + results) \<times> world" where
  "execute_loop env i [] res w = (Inr res, w)"
| "execute_loop env i (payment # rest) res w =
     (let obs = env i;
          w1 = remote_call (Refund_create (refund_request_of payment (processed_at obs))) w
      in case outcome obs of
           Inr r \<Rightarrow>
             let w2 = print_lines 1 w1;
                 res' = res\<lparr>succeeded := succeeded res @ [succeeded_entry_of payment r (stamp obs)]\<rparr>
             in if i mod 20 = 0 then
                  (case time_sleep 1 (print_lines 1 w2) of
                     Inl err \<Rightarrow> (Inl err, print_lines 1 w2)
                   | Inr w3 \<Rightarrow> execute_loop env (Suc i) rest res' w3)
                else execute_loop env (Suc i) rest res' w2
         | Inl e \<Rightarrow>
             if isinstance e InvalidRequestError then
               execute_loop env (Suc i) rest
                 (res\<lparr>failed := failed res @ [failed_entry_of payment e (stamp obs)]\<rparr>)
                 (print_lines 1 w1)
             else if isinstance e StripeError then
               execute_loop env (Suc i) rest
                 (res\<lparr>failed := failed res @ [failed_entry_of payment e (stamp obs)]\<rparr>)
                 (print_lines 1 w1)
             else (Inl (StripeExc e), w1))"

definition execute_bulk_refunds ::
  "(nat \<Rightarrow> refund_obs) \<Rightarrow> eligible_payment list \<Rightarrow> world \<Rightarrow> (py_exception + results) \<times> world" where
  "execute_bulk_refunds env eligible w =
     execute_loop env 1 eligible \<lparr>succeeded = [], failed = []\<rparr> (print_lines 5 w)"

text \<open>
  Lines 286-337. The function prints the report and returns nothing; the model returns the
  values of the summary box. \<open>MATCH\<close> and \<open>MISMATCH\<close> are the two values of the
  \<^verbatim>\<open>Verification\<close> line.
\<close>

datatype verification = MATCH | MISMATCH

record compliance_report =
  refunds_succeeded :: nat
  refunds_failed :: nat
  payments_skipped :: nat
  total_refunded :: int
  expected_total :: int
  verdict :: verification

definition generate_compliance_report ::
  "results \<Rightarrow> eligible_payment list \<Rightarrow> skipped_payment list \<Rightarrow> int \<Rightarrow> world \<Rightarrow>
     compliance_report \<times> world" where
  "generate_compliance_report res eligible skipped total_preview w =
     (let succeeded' = succeeded res;
          failed' = failed res;
          total_refunded' = sum_list (map s_amount succeeded');
          match = (if total_refunded' = total_preview then MATCH else MISMATCH);
          w1 = print_lines (20 + 8 * length succeeded') w;
          w2 = (if failed' \<noteq> [] then print_lines (1 + 4 * length failed') w1 else w1);
          w3 = (if skipped \<noteq> [] then print_lines (1 + length skipped) w2 else w2)
      in (\<lparr>refunds_succeeded = length succeeded',
           refunds_failed = length failed',
           payments_skipped = length skipped,
           total_refunded = total_refunded',
           expected_total = total_preview,
           verdict = match\<rparr>, w3))"

subsection \<open>Notions used to state the properties of the bulk refund\<close>

text \<open>The identifiers that \<^verbatim>\<open>discover_eligible_payments\<close> walks through.\<close>

definition candidates :: "string list option \<Rightarrow> string list" where
  "candidates test_pi_ids = (case test_pi_ids of None \<Rightarrow> [] | Some pids \<Rightarrow> pids)"

text \<open>A payment with nothing left to refund, and the entry of the skip list for a payment.\<close>

definition fully_refunded :: "payment_intent \<Rightarrow> bool" where
  "fully_refunded intent = (pi_amount intent - already_refunded_of intent \<le> 0)"

definition is_eligible :: "payment_intent \<Rightarrow> bool" where
  "is_eligible intent = (pi_status intent = ''succeeded'' \<and> \<not> fully_refunded intent)"

definition skip_entry :: "payment_intent \<Rightarrow> skipped_payment" where
  "skip_entry intent =
     \<lparr>skip_pi_id = pi_ident intent,
      reason = (if pi_status intent = ''succeeded'' then ''Already fully refunded''
                else status_reason (pi_status intent))\<rparr>"

text \<open>\<open>n\<close> calls of \<^verbatim>\<open>dry_run\<close> on the same list, one after the other.\<close>

fun dry_run_times :: "nat \<Rightarrow> eligible_payment list \<Rightarrow> world \<Rightarrow> int list \<times> world" where
  "dry_run_times 0 eligible w = ([], w)"
| "dry_run_times (Suc n) eligible w =
     (let first = dry_run eligible w;
          others = dry_run_times n eligible (snd first)
      in (fst first # fst others, snd others))"

text \<open>The number of lines one call of \<^verbatim>\<open>dry_run\<close> prints.\<close>

definition dry_run_lines :: "eligible_payment list \<Rightarrow> nat" where
  "dry_run_lines eligible =
     16 + (if filter (\<lambda>p. already_refunded p > 0) eligible \<noteq> []
           then 1 + length (filter (\<lambda>p. already_refunded p > 0) eligible) else 0)"

text \<open>
  The \<open>k\<close>-th submission (counted from 1, as \<^verbatim>\<open>enumerate(eligible, 1)\<close> does) succeeded;
  the events of the \<open>k\<close>-th turn of the loop; the entries it appends.
\<close>

definition refund_ok :: "(nat \<Rightarrow> refund_obs) \<Rightarrow> nat \<times> eligible_payment \<Rightarrow> bool" where
  "refund_ok env item = (\<not> isl (outcome (env (fst item))))"

definition submission :: "(nat \<Rightarrow> refund_obs) \<Rightarrow> nat \<times> eligible_payment \<Rightarrow> remote_call" where
  "submission env item =
     Refund_create (refund_request_of (snd item) (processed_at (env (fst item))))"

definition pause_after :: "(nat \<Rightarrow> refund_obs) \<Rightarrow> nat \<times> eligible_payment \<Rightarrow> bool" where
  "pause_after env item = (refund_ok env item \<and> fst item mod 20 = 0)"

definition submission_events :: "(nat \<Rightarrow> refund_obs) \<Rightarrow> nat \<times> eligible_payment \<Rightarrow> event list" where
  "submission_events env item =
     Request (submission env item) # (if pause_after env item then [Sleep 1] else [])"

definition succeeded_of :: "(nat \<Rightarrow> refund_obs) \<Rightarrow> nat \<times> eligible_payment \<Rightarrow> succeeded_entry" where
  "succeeded_of env item =
     succeeded_entry_of (snd item) (projr (outcome (env (fst item)))) (stamp (env (fst item)))"

definition failed_of :: "(nat \<Rightarrow> refund_obs) \<Rightarrow> nat \<times> eligible_payment \<Rightarrow> failed_entry" where
  "failed_of env item =
     failed_entry_of (snd item) (projl (outcome (env (fst item)))) (stamp (env (fst item)))"

text \<open>The refundable amounts of the payments whose refund failed.\<close>

definition failed_amount :: "(nat \<Rightarrow> refund_obs) \<Rightarrow> eligible_payment list \<Rightarrow> int" where
  "failed_amount env eligible =
     sum_list (map (\<lambda>item. refundable (snd item))
                 (filter (\<lambda>item. \<not> refund_ok env item) (enumerate 1 eligible)))"

text \<open>
  The three steps of \<^verbatim>\<open>main\<close> after the discovery: the preview, the execution and the
  report on the same list.
\<close>

definition recall_report ::
  "(nat \<Rightarrow> refund_obs) \<Rightarrow> eligible_payment list \<Rightarrow> skipped_payment list \<Rightarrow> world \<Rightarrow>
     py_exception + compliance_report" where
  "recall_report env eligible skipped w =
     (let preview = dry_run eligible w;
          run = execute_bulk_refunds env eligible (snd preview)
      in case fst run of
           Inl e \<Rightarrow> Inl e
         | Inr res \<Rightarrow>
             Inr (fst (generate_compliance_report res eligible skipped (fst preview) (snd run))))"

subsection \<open>Test inputs of the bulk refund\<close>

definition demo_intent :: "string \<Rightarrow> string \<Rightarrow> int \<Rightarrow> payment_intent" where
  "demo_intent ident status refunded =
     \<lparr>pi_ident = ident, pi_status = status, pi_amount = 34900,
      latest_charge = Some \<lparr>charge_id = ''ch_1'', amount_refunded = refunded\<rparr>,
      pi_metadata = [''order_id'' \<mapsto> ''ORD-1''],
      pi_description = ''NordBrew Pro 3000'', pi_created = 1700000000\<rparr>"

text \<open>
  A store with four payments: one untouched, one refunded in part, one refunded in full, and
  one cancelled before capture, whose charge Stripe shows as refunded in full.
\<close>

definition retrieve_demo :: "string \<Rightarrow> stripe_exc + payment_intent" where
  "retrieve_demo pid =
     (if pid = ''pi_full'' then Inr (demo_intent pid ''succeeded'' 0)
      else if pid = ''pi_partial'' then Inr (demo_intent pid ''succeeded'' 5000)
      else if pid = ''pi_refunded'' then Inr (demo_intent pid ''succeeded'' 34900)
      else if pid = ''pi_canceled'' then Inr (demo_intent pid ''canceled'' 34900)
      else Inl \<lparr>exc_class = InvalidRequestError, exc_str = ''No such payment_intent''\<rparr>)"

definition demo_payment :: "string \<Rightarrow> int \<Rightarrow> int \<Rightarrow> eligible_payment" where
  "demo_payment ident charged refunded =
     \<lparr>pi_id = ident, e_charge_id = Some ''ch_1'', amount = charged, already_refunded = refunded,
      refundable = charged - refunded, order_id = ''ORD-1'', customer_email = ''N/A'',
      description = ''NordBrew Pro 3000'', created = 1700000000\<rparr>"

text \<open>A plan of three payments with 500, 300 and 200 to refund.\<close>

definition plan_1000 :: "eligible_payment list" where
  "plan_1000 = [demo_payment ''pi_a'' 500 0, demo_payment ''pi_b'' 300 0,
                demo_payment ''pi_c'' 349 149]"

text \<open>An environment in which exactly the \<open>bad\<close>-th refund is declined.\<close>

definition refund_env :: "nat \<Rightarrow> nat \<Rightarrow> refund_obs" where
  "refund_env bad k =
     \<lparr>outcome = (if k = bad
                 then Inl \<lparr>exc_class = InvalidRequestError,
                           exc_str = ''Charge has already been refunded''\<rparr>
                 else Inr \<lparr>refund_id = ''re_1'', refund_status = ''succeeded''\<rparr>),
      processed_at = ''2026-01-01T00:00:00'', stamp = ''2026-01-01T00:00:01''\<rparr>"


section \<open>Properties of the key derivation\<close>

lemma length_hex32: "length (hex32 w) = 8"
  unfolding hex32_def by (simp only: length_map length_upt diff_zero)

lemma length_state_hex: "length (state_hex st) = 64"
  by (cases st rule: state_hex.cases) (simp add: length_hex32)

lemma length_sha256_hexdigest: "length (sha256_hexdigest s) = 64"
  by (simp add: sha256_hexdigest_def length_state_hex)

lemma length_generate_composite_key: "length (generate_composite_key m o' a) = 32"
  by (simp add: generate_composite_key_def length_sha256_hexdigest)

text \<open>
  The model of the digest agrees with the reference implementation on the key of the first
  demo booking: \<^verbatim>\<open>sha256(b"agency_042:booking_7891:create_payment").hexdigest()[:32]\<close>.
\<close>

lemma generate_composite_key_demo:
  "generate_composite_key ''agency_042'' ''booking_7891'' ''create_payment''
     = ''4a1e910345c8b7615f2fa599d9a225b3''"
  by code_simp

text \<open>A separator-free prefix is determined by the joined string.\<close>

lemma join_inject:
  "c \<notin> set x \<Longrightarrow> c \<notin> set x' \<Longrightarrow> x @ c # y = x' @ c # y' \<Longrightarrow> x = x' \<and> y = y'"
proof (induction x arbitrary: x')
  case Nil
  then show ?case by (cases x') auto
next
  case (Cons a x)
  then show ?case by (cases x') auto
qed

lemma composite_raw_inject:
  assumes "CHR '':'' \<notin> set m1" "CHR '':'' \<notin> set m2"
    and "CHR '':'' \<notin> set o1" "CHR '':'' \<notin> set o2"
    and "composite_raw m1 o1 a1 = composite_raw m2 o2 a2"
  shows "m1 = m2 \<and> o1 = o2 \<and> a1 = a2"
proof -
  from assms(5) have eq: "m1 @ CHR '':'' # (o1 @ CHR '':'' # a1) = m2 @ CHR '':'' # (o2 @ CHR '':'' # a2)"
    by (simp add: composite_raw_def)
  have mr: "m1 = m2 \<and> o1 @ CHR '':'' # a1 = o2 @ CHR '':'' # a2"
    by (rule join_inject [OF assms(1) assms(2) eq])
  then have m: "m1 = m2" and r: "o1 @ CHR '':'' # a1 = o2 @ CHR '':'' # a2"
    by (rule conjunct1, rule conjunct2)
  have "o1 = o2 \<and> a1 = a2"
    by (rule join_inject [OF assms(3) assms(4) r])
  with m show ?thesis by simp
qed

text \<open>
  C2 (as amended). Equal identities derive equal keys, and more generally the key is
  determined by the joined string \<^verbatim>\<open>merchant_id:order_id:action\<close>. The converse holds
  for the joined string, not for the key: when merchant_id and order_id contain no
  \<^verbatim>\<open>:\<close>, two identities have the same joined string exactly when they are equal.
\<close>

theorem C2_key_determined_by_joined_identity:
  "((m1, o1, a1) = (m2, o2, a2) \<longrightarrow>
      generate_composite_key m1 o1 a1 = generate_composite_key m2 o2 a2)
   \<and> (composite_raw m1 o1 a1 = composite_raw m2 o2 a2 \<longrightarrow>
      generate_composite_key m1 o1 a1 = generate_composite_key m2 o2 a2)
   \<and> (CHR '':'' \<notin> set m1 \<union> set o1 \<union> set m2 \<union> set o2 \<longrightarrow>
      (composite_raw m1 o1 a1 = composite_raw m2 o2 a2 \<longleftrightarrow> (m1, o1, a1) = (m2, o2, a2)))"
proof (intro conjI impI)
  assume "(m1, o1, a1) = (m2, o2, a2)"
  then show "generate_composite_key m1 o1 a1 = generate_composite_key m2 o2 a2" by simp
next
  assume "composite_raw m1 o1 a1 = composite_raw m2 o2 a2"
  then show "generate_composite_key m1 o1 a1 = generate_composite_key m2 o2 a2"
    by (simp add: generate_composite_key_def)
next
  assume "CHR '':'' \<notin> set m1 \<union> set o1 \<union> set m2 \<union> set o2"
  then have c: "CHR '':'' \<notin> set m1" "CHR '':'' \<notin> set m2" "CHR '':'' \<notin> set o1" "CHR '':'' \<notin> set o2"
    by simp_all
  show "composite_raw m1 o1 a1 = composite_raw m2 o2 a2 \<longleftrightarrow> (m1, o1, a1) = (m2, o2, a2)"
  proof
    assume "composite_raw m1 o1 a1 = composite_raw m2 o2 a2"
    then have "m1 = m2 \<and> o1 = o2 \<and> a1 = a2"
      by (rule composite_raw_inject [OF c])
    then show "(m1, o1, a1) = (m2, o2, a2)" by simp
  next
    assume "(m1, o1, a1) = (m2, o2, a2)"
    then show "composite_raw m1 o1 a1 = composite_raw m2 o2 a2" by simp
  qed
qed

theorem C2_key_determined_by_joined_identity_witness:
  "generate_composite_key ''agency_042'' ''booking_7891'' ''create_payment''
     = generate_composite_key ''agency_042'' ''booking_7891'' ''create_payment''
   \<and> generate_composite_key ''a:b'' ''c'' ''d'' = generate_composite_key ''a'' ''b:c'' ''d''
   \<and> composite_raw ''agency_042'' ''booking_7891'' ''create_payment''
        \<noteq> composite_raw ''agency_042'' ''booking_7892'' ''create_payment''"
  using C2_key_determined_by_joined_identity
          [of "''agency_042''" "''booking_7891''" "''create_payment''"
              "''agency_042''" "''booking_7891''" "''create_payment''"]
        C2_key_determined_by_joined_identity
          [of "''a:b''" "''c''" "''d''" "''a''" "''b:c''" "''d''"]
        C2_key_determined_by_joined_identity
          [of "''agency_042''" "''booking_7891''" "''create_payment''"
              "''agency_042''" "''booking_7892''" "''create_payment''"]
  by (simp add: composite_raw_def)

text \<open>
  C2 as stated fails from right to left of the separator: the identities
  \<^verbatim>\<open>("a:b", "c", "d")\<close> and \<^verbatim>\<open>("a", "b:c", "d")\<close> differ and derive the same key.
\<close>

theorem C2_distinct_identities_same_key:
  "generate_composite_key ''a:b'' ''c'' ''d'' = generate_composite_key ''a'' ''b:c'' ''d''
   \<and> (''a:b'', ''c'', ''d'') \<noteq> (''a'', ''b:c'', ''d'')"
  by (simp add: generate_composite_key_def composite_raw_def)

text \<open>
  C3. The key is a function of the identity triple alone: two operations with the same
  merchant, order and action derive the same key, whatever their amount, currency and
  description, and the key always has 32 characters. The derivation reads no clock, no
  random source and no process state.
\<close>

theorem C3_key_depends_on_identity_only:
  "op_merchant_id op1 = op_merchant_id op2 \<Longrightarrow> op_order_id op1 = op_order_id op2 \<Longrightarrow>
   op_action op1 = op_action op2 \<Longrightarrow>
   derive_key op1 = derive_key op2
   \<and> derive_key op1 = generate_composite_key (op_merchant_id op1) (op_order_id op1) (op_action op1)
   \<and> length (derive_key op1) = 32"
  by (simp add: derive_key_def length_generate_composite_key)

theorem C3_key_depends_on_identity_only_witness:
  "derive_key \<lparr>op_merchant_id = ''agency_042'', op_order_id = ''booking_7891'',
               op_action = ''create_payment'', op_amount = 240000, op_currency = ''eur'',
               op_description = ''TravelBook: booking_7891 for agency_042''\<rparr>
   = derive_key \<lparr>op_merchant_id = ''agency_042'', op_order_id = ''booking_7891'',
               op_action = ''create_payment'', op_amount = 185000, op_currency = ''usd'',
               op_description = ''retry at 12:00:01''\<rparr>"
  using C3_key_depends_on_identity_only
          [of "\<lparr>op_merchant_id = ''agency_042'', op_order_id = ''booking_7891'',
               op_action = ''create_payment'', op_amount = 240000, op_currency = ''eur'',
               op_description = ''TravelBook: booking_7891 for agency_042''\<rparr>"
              "\<lparr>op_merchant_id = ''agency_042'', op_order_id = ''booking_7891'',
               op_action = ''create_payment'', op_amount = 185000, op_currency = ''usd'',
               op_description = ''retry at 12:00:01''\<rparr>"]
  by simp


section \<open>Properties of the submitter and the retrier\<close>

lemma isinstance_StripeError: "isinstance e StripeError"
  by (simp add: isinstance_def issubclass_def)

lemma isinstance_IdempotencyError: "isinstance e IdempotencyError \<longleftrightarrow> exc_class e = IdempotencyError"
  by (simp add: isinstance_def issubclass_def)

lemma isinstance_APIConnectionError:
  "isinstance e APIConnectionError \<longleftrightarrow> exc_class e = APIConnectionError"
  by (simp add: isinstance_def issubclass_def)

lemma class_name_not_collision: "class_name c \<noteq> ''idempotency_collision''"
  by (cases c) simp_all

lemma create_payment_safely_returned:
  "remote (create_request amt currency descr key) = Inr p \<Longrightarrow>
   create_payment_safely remote amt currency descr key email w =
     (Inr [''success'' \<mapsto> PBool True,
           ''payment_intent_id'' \<mapsto> PStr (pio_id p),
           ''amount'' \<mapsto> PInt (pio_amount p),
           ''status'' \<mapsto> PStr (pio_status p),
           ''idempotency_key'' \<mapsto> PStr key],
      remote_call (PaymentIntent_create (create_request amt currency descr key)) w)"
  by (simp add: create_payment_safely_def)

lemma create_payment_safely_raised:
  "remote (create_request amt currency descr key) = Inl e \<Longrightarrow>
   create_payment_safely remote amt currency descr key email w =
     (Inr [''success'' \<mapsto> PBool False,
           ''error_type'' \<mapsto> PStr (if exc_class e = IdempotencyError then ''idempotency_collision''
                                    else class_name (exc_class e)),
           ''message'' \<mapsto> PStr (exc_str e),
           ''idempotency_key'' \<mapsto> PStr key],
      remote_call (PaymentIntent_create (create_request amt currency descr key)) w)"
  by (simp add: create_payment_safely_def isinstance_StripeError isinstance_IdempotencyError)

text \<open>
  C10. \<^verbatim>\<open>create_payment_safely\<close> never raises on a Stripe error: for every answer of the remote
  side it returns a dictionary. The dictionary holds \<^verbatim>\<open>idempotency_key\<close>, equal to the key
  argument; \<^verbatim>\<open>success\<close> is \<^verbatim>\<open>True\<close> exactly when the remote create returned a record, and
  then \<^verbatim>\<open>payment_intent_id\<close> is the id of that record; on a failure \<^verbatim>\<open>success\<close> is
  \<^verbatim>\<open>False\<close> and \<^verbatim>\<open>error_type\<close> is \<^verbatim>\<open>idempotency_collision\<close> exactly when the raised
  exception is an \<^verbatim>\<open>IdempotencyError\<close>.
\<close>

theorem C10_create_payment_safely_total:
  "(let req = create_request amt currency descr key;
        r = fst (create_payment_safely remote amt currency descr key email w);
        d = projr r
    in \<not> isl r
     \<and> d ''idempotency_key'' = Some (PStr key)
     \<and> (d ''success'' = Some (PBool True) \<longleftrightarrow> \<not> isl (remote req))
     \<and> (\<not> isl (remote req) \<longrightarrow> d ''payment_intent_id'' = Some (PStr (pio_id (projr (remote req)))))
     \<and> (isl (remote req) \<longrightarrow>
          d ''success'' = Some (PBool False)
          \<and> (d ''error_type'' = Some (PStr ''idempotency_collision'')
               \<longleftrightarrow> exc_class (projl (remote req)) = IdempotencyError)))"
proof (cases "remote (create_request amt currency descr key)")
  case (Inl e)
  show ?thesis
    using class_name_not_collision [of "exc_class e"]
    by (simp add: Let_def create_payment_safely_raised [where remote = remote, OF Inl] Inl)
next
  case (Inr p)
  show ?thesis
    by (simp add: Let_def create_payment_safely_returned [where remote = remote, OF Inr] Inr)
qed

lemma requests_of_append: "requests_of (xs @ ys) = requests_of xs @ requests_of ys"
  by (induction xs rule: requests_of.induct) simp_all

lemma sleeps_of_append: "sleeps_of (xs @ ys) = sleeps_of xs @ sleeps_of ys"
  by (induction xs rule: sleeps_of.induct) simp_all

lemma trace_remote_call: "trace (remote_call c w) = trace w @ [Request c]"
  by (simp add: remote_call_def)

lemma trace_print_lines: "trace (print_lines n w) = trace w"
  by (simp add: print_lines_def)

lemma trace_emit: "trace (emit evs w) = trace w @ evs"
  by (simp add: emit_def)

lemma console_emit: "console (emit evs w) = console w"
  by (simp add: emit_def)

lemma console_print_lines: "console (print_lines n w) = console w + n"
  by (simp add: print_lines_def)

lemma remote_call_emit: "remote_call c w = emit [Request c] w"
  by (simp add: remote_call_def emit_def)

lemma emit_emit: "emit xs (emit ys w) = emit (ys @ xs) w"
  by (cases w) (simp add: emit_def)

lemma emit_print_lines: "emit evs (print_lines n w) = print_lines n (emit evs w)"
  by (cases w) (simp add: emit_def print_lines_def)

lemma print_lines_print_lines: "print_lines i (print_lines j w) = print_lines (j + i) w"
  by (cases w) (simp add: print_lines_def)

lemma emit_Nil: "emit [] w = w"
  by (cases w) (simp add: emit_def)

lemma print_lines_0: "print_lines 0 w = w"
  by (cases w) (simp add: print_lines_def)

lemma time_sleep_ok: "0 \<le> d \<Longrightarrow> time_sleep d w = Inr (emit [Sleep d] w)"
  by (simp add: time_sleep_def emit_def)

lemmas world_norm = remote_call_emit emit_emit emit_print_lines print_lines_print_lines
  emit_Nil print_lines_0

lemma entry_attempt:
  "success_entry a obs res ''attempt'' = Some (PInt (int a))"
  "connection_error_entry a obs d e ''attempt'' = Some (PInt (int a))"
  "stripe_error_entry a obs e ''attempt'' = Some (PInt (int a))"
  by (simp_all add: success_entry_def connection_error_entry_def stripe_error_entry_def)

lemma entry_elapsed:
  "success_entry a obs res ''elapsed_ms'' = Some (PInt (py_round (elapsed obs * 1000)))"
  "connection_error_entry a obs d e ''elapsed_ms'' = Some (PInt (py_round (elapsed obs * 1000)))"
  "stripe_error_entry a obs e ''elapsed_ms'' = Some (PInt (py_round (elapsed obs * 1000)))"
  by (simp_all add: success_entry_def connection_error_entry_def stripe_error_entry_def)

lemma entry_status:
  "success_entry a obs res ''status'' = Some (PStr ''success'')"
  "connection_error_entry a obs d e ''status'' = Some (PStr ''connection_error'')"
  "stripe_error_entry a obs e ''status'' = Some (PStr ''stripe_error'')"
  by (simp_all add: success_entry_def connection_error_entry_def stripe_error_entry_def)

lemma entry_error:
  "connection_error_entry a obs d e ''error'' = Some (PStr (exc_str e))"
  "stripe_error_entry a obs e ''error'' = Some (PStr (exc_str e))"
  by (simp_all add: connection_error_entry_def stripe_error_entry_def)

subsection \<open>One iteration of the retry loop\<close>

lemma retry_loop_exhausted:
  "m < a \<Longrightarrow> retry_loop env m b a lg w = (Inr None, w)"
  by (subst retry_loop.simps) simp

lemma retry_loop_success:
  "a \<le> m \<Longrightarrow> call_outcome (env a) = Inr res \<Longrightarrow>
   retry_loop env m b a lg w =
     (Inr (Some (Some res, lg @ [success_entry a (env a) res])), remote_call (Wrapped_call a) w)"
  by (subst retry_loop.simps) (simp add: Let_def)

lemma retry_loop_permanent:
  "a \<le> m \<Longrightarrow> call_outcome (env a) = Inl e \<Longrightarrow> \<not> isinstance e APIConnectionError \<Longrightarrow>
   retry_loop env m b a lg w =
     (Inr (Some (None, lg @ [stripe_error_entry a (env a) e])), remote_call (Wrapped_call a) w)"
  by (subst retry_loop.simps) (simp add: Let_def isinstance_StripeError)

lemma retry_loop_transient_last:
  "call_outcome (env m) = Inl e \<Longrightarrow> isinstance e APIConnectionError \<Longrightarrow>
   retry_loop env m b m lg w =
     (Inr (Some (None, lg @ [connection_error_entry m (env m) (attempt_delay env b m) e])),
      print_lines 1 (remote_call (Wrapped_call m) w))"
  by (subst retry_loop.simps) (simp add: Let_def attempt_delay_def)

lemma retry_loop_transient_retry:
  "a < m \<Longrightarrow> call_outcome (env a) = Inl e \<Longrightarrow> isinstance e APIConnectionError \<Longrightarrow>
   0 \<le> attempt_delay env b a \<Longrightarrow>
   retry_loop env m b a lg w =
     retry_loop env m b (Suc a)
       (lg @ [connection_error_entry a (env a) (attempt_delay env b a) e])
       (print_lines 1 (emit [Request (Wrapped_call a), Sleep (attempt_delay env b a)] w))"
  by (subst retry_loop.simps)
     (simp add: Let_def attempt_delay_def [symmetric] time_sleep_ok world_norm)

lemma retry_loop_transient_bad_sleep:
  "a < m \<Longrightarrow> call_outcome (env a) = Inl e \<Longrightarrow> isinstance e APIConnectionError \<Longrightarrow>
   attempt_delay env b a < 0 \<Longrightarrow>
   retry_loop env m b a lg w =
     (Inl (ValueError ''sleep length must be non-negative''),
      print_lines 1 (remote_call (Wrapped_call a) w))"
  by (subst retry_loop.simps) (simp add: Let_def attempt_delay_def time_sleep_def)

subsection \<open>A run of transient failures\<close>

lemma upt_snoc_Suc: "a \<le> n \<Longrightarrow> [a..<Suc n] = [a..<n] @ [n]"
  by simp

lemma retry_loop_transient_prefix:
  assumes "a \<le> n" "n \<le> m"
    and "\<And>k. a \<le> k \<Longrightarrow> k < n \<Longrightarrow> is_transient (env k) \<and> 0 \<le> attempt_delay env b k"
  shows "retry_loop env m b a lg w =
           retry_loop env m b n (lg @ connection_error_entries env b [a..<n])
             (print_lines (n - a) (emit (backoff_events env b [a..<n]) w))"
  using assms
proof (induction n rule: dec_induct)
  case base
  show ?case by (simp add: connection_error_entries_def backoff_events_def world_norm)
next
  case (step n)
  have tr: "is_transient (env n)" and d: "0 \<le> attempt_delay env b n"
    using step.prems(2) [of n] step.hyps by simp_all
  from tr obtain e where e: "call_outcome (env n) = Inl e" "isinstance e APIConnectionError"
    by (auto simp: is_transient_def split: sum.splits)
  have lt: "n < m" using step.prems(1) by simp
  have "retry_loop env m b a lg w =
          retry_loop env m b n (lg @ connection_error_entries env b [a..<n])
            (print_lines (n - a) (emit (backoff_events env b [a..<n]) w))"
    using step.IH step.prems by simp
  also have "\<dots> = retry_loop env m b (Suc n)
            (lg @ connection_error_entries env b [a..<Suc n])
            (print_lines (Suc n - a) (emit (backoff_events env b [a..<Suc n]) w))"
    using step.hyps(1)
    by (subst retry_loop_transient_retry [where env = env, OF lt e d])
       (simp add: connection_error_entries_def backoff_events_def e Suc_diff_le world_norm)
  finally show ?case .
qed

lemma retry_loop_all_transient:
  assumes "a \<le> m"
    and tr: "\<And>k. a \<le> k \<Longrightarrow> k \<le> m \<Longrightarrow> is_transient (env k)"
    and d: "\<And>k. a \<le> k \<Longrightarrow> k < m \<Longrightarrow> 0 \<le> attempt_delay env b k"
  shows "retry_loop env m b a lg w =
           (Inr (Some (None, lg @ connection_error_entries env b [a..<Suc m])),
            print_lines (Suc m - a) (emit (backoff_events env b [a..<m] @ [Request (Wrapped_call m)]) w))"
proof -
  from tr [of m] assms(1) obtain e where e: "call_outcome (env m) = Inl e" "isinstance e APIConnectionError"
    by (auto simp: is_transient_def split: sum.splits)
  have "retry_loop env m b a lg w =
          retry_loop env m b m (lg @ connection_error_entries env b [a..<m])
            (print_lines (m - a) (emit (backoff_events env b [a..<m]) w))"
    by (rule retry_loop_transient_prefix) (use assms in auto)
  also have "\<dots> = (Inr (Some (None, lg @ connection_error_entries env b [a..<Suc m])),
            print_lines (Suc m - a) (emit (backoff_events env b [a..<m] @ [Request (Wrapped_call m)]) w))"
    using assms(1)
    by (subst retry_loop_transient_last [where env = env, OF e])
       (simp add: connection_error_entries_def e Suc_diff_le world_norm)
  finally show ?thesis .
qed

subsection \<open>The trace only grows\<close>

lemma retry_loop_trace_prefix:
  "prefix (trace w) (trace (snd (retry_loop env m b a lg w)))"
proof (induction k \<equiv> "Suc m - a" arbitrary: a lg w)
  case 0
  then have "m < a" by simp
  then show ?case by (simp add: retry_loop_exhausted)
next
  case (Suc k)
  then have le: "a \<le> m" by simp
  show ?case
  proof (cases "call_outcome (env a)")
    case (Inr res)
    show ?thesis by (simp add: retry_loop_success [where env = env, OF le Inr] trace_remote_call)
  next
    case (Inl e)
    show ?thesis
    proof (cases "isinstance e APIConnectionError")
      case False
      show ?thesis by (simp add: retry_loop_permanent [where env = env, OF le Inl False] trace_remote_call)
    next
      case True
      show ?thesis
      proof (cases "a < m")
        case False
        with le have "a = m" by simp
        then show ?thesis
          using retry_loop_transient_last [of env m e b lg w] Inl True
          by (simp add: trace_remote_call trace_print_lines)
      next
        case lt: True
        show ?thesis
        proof (cases "0 \<le> attempt_delay env b a")
          case False
          then have "attempt_delay env b a < 0" by simp
          then show ?thesis
            by (simp add: retry_loop_transient_bad_sleep [where env = env, OF lt Inl True]
                  trace_remote_call trace_print_lines)
        next
          case d: True
          let ?w2 = "print_lines 1 (emit [Request (Wrapped_call a), Sleep (attempt_delay env b a)] w)"
          have "k = Suc m - Suc a" using Suc.hyps(2) by simp
          then have "prefix (trace ?w2) (trace (snd (retry_loop env m b (Suc a)
                (lg @ [connection_error_entry a (env a) (attempt_delay env b a) e]) ?w2)))"
            by (rule Suc.hyps(1))
          then show ?thesis
            by (simp add: retry_loop_transient_retry [where env = env, OF lt Inl True d]
                  trace_print_lines trace_emit append_prefixD)
        qed
      qed
    qed
  qed
qed

subsection \<open>Every run: calls and log entries\<close>

lemma retry_loop_invariant:
  "\<exists>n. n \<le> Suc m - a
     \<and> requests_of (trace (snd (retry_loop env m b a lg w)))
         = requests_of (trace w) @ map Wrapped_call [a..<a + n]
     \<and> (\<forall>res lg'. fst (retry_loop env m b a lg w) = Inr (Some (res, lg')) \<longrightarrow>
           map attempt_of lg' = map attempt_of lg @ map (\<lambda>k. Some (PInt (int k))) [a..<a + n]
         \<and> map elapsed_ms_of lg' = map elapsed_ms_of lg
              @ map (\<lambda>k. Some (PInt (py_round (elapsed (env k) * 1000)))) [a..<a + n])"
proof (induction k \<equiv> "Suc m - a" arbitrary: a lg w)
  case 0
  then have "m < a" by simp
  then show ?case by (simp add: retry_loop_exhausted)
next
  case (Suc k)
  then have le: "a \<le> m" by simp
  have one: "[a..<a + 1] = [a]" by simp
  show ?case
  proof (cases "call_outcome (env a)")
    case (Inr res)
    show ?thesis
      using le
      by (intro exI [of _ 1])
         (simp add: retry_loop_success [where env = env, OF le Inr] trace_remote_call
            requests_of_append attempt_of_def elapsed_ms_of_def entry_attempt entry_elapsed)
  next
    case (Inl e)
    show ?thesis
    proof (cases "isinstance e APIConnectionError")
      case False
      show ?thesis
        using le
        by (intro exI [of _ 1])
           (simp add: retry_loop_permanent [where env = env, OF le Inl False] trace_remote_call
              requests_of_append attempt_of_def elapsed_ms_of_def entry_attempt entry_elapsed)
    next
      case True
      show ?thesis
      proof (cases "a < m")
        case False
        with le have am: "a = m" by simp
        show ?thesis
          using retry_loop_transient_last [of env m e b lg w] Inl True
          unfolding am
          by (intro exI [of _ 1])
             (simp add: trace_remote_call trace_print_lines
                requests_of_append attempt_of_def elapsed_ms_of_def entry_attempt entry_elapsed)
      next
        case lt: True
        show ?thesis
        proof (cases "0 \<le> attempt_delay env b a")
          case False
          then have neg: "attempt_delay env b a < 0" by simp
          show ?thesis
            using le
            by (intro exI [of _ 1])
               (simp add: retry_loop_transient_bad_sleep [where env = env, OF lt Inl True neg]
                  trace_remote_call trace_print_lines requests_of_append)
        next
          case d: True
          let ?w2 = "print_lines 1 (emit [Request (Wrapped_call a), Sleep (attempt_delay env b a)] w)"
          let ?lg2 = "lg @ [connection_error_entry a (env a) (attempt_delay env b a) e]"
          have k: "k = Suc m - Suc a" using Suc.hyps(2) by simp
          from Suc.hyps(1) [OF k, of ?lg2 ?w2]
          obtain n where n: "n \<le> Suc m - Suc a"
            and rq: "requests_of (trace (snd (retry_loop env m b (Suc a) ?lg2 ?w2)))
                       = requests_of (trace ?w2) @ map Wrapped_call [Suc a..<Suc a + n]"
            and lgs: "\<And>res lg'. fst (retry_loop env m b (Suc a) ?lg2 ?w2) = Inr (Some (res, lg')) \<Longrightarrow>
                 map attempt_of lg' = map attempt_of ?lg2 @ map (\<lambda>k. Some (PInt (int k))) [Suc a..<Suc a + n]
               \<and> map elapsed_ms_of lg' = map elapsed_ms_of ?lg2
                    @ map (\<lambda>k. Some (PInt (py_round (elapsed (env k) * 1000)))) [Suc a..<Suc a + n]"
            by blast
          have step: "retry_loop env m b a lg w = retry_loop env m b (Suc a) ?lg2 ?w2"
            by (rule retry_loop_transient_retry [where env = env, OF lt Inl True d])
          have upt: "[a..<a + Suc n] = a # [Suc a..<Suc a + n]"
            by (simp add: upt_rec)
          show ?thesis
          proof (intro exI [of _ "Suc n"] conjI allI impI)
            show "Suc n \<le> Suc m - a" using n lt by simp
            show "requests_of (trace (snd (retry_loop env m b a lg w)))
                    = requests_of (trace w) @ map Wrapped_call [a..<a + Suc n]"
              unfolding step rq upt
              by (simp add: trace_print_lines trace_emit requests_of_append)
          next
            fix res lg'
            assume "fst (retry_loop env m b a lg w) = Inr (Some (res, lg'))"
            then have r: "fst (retry_loop env m b (Suc a) ?lg2 ?w2) = Inr (Some (res, lg'))"
              unfolding step .
            show "map attempt_of lg' = map attempt_of lg @ map (\<lambda>k. Some (PInt (int k))) [a..<a + Suc n]"
              using lgs [OF r] unfolding upt
              by (simp add: attempt_of_def entry_attempt)
            show "map elapsed_ms_of lg' = map elapsed_ms_of lg
                    @ map (\<lambda>k. Some (PInt (py_round (elapsed (env k) * 1000)))) [a..<a + Suc n]"
              using lgs [OF r] unfolding upt
              by (simp add: elapsed_ms_of_def entry_elapsed)
          qed
        qed
      qed
    qed
  qed
qed

lemma retry_loop_not_None:
  "a \<le> m \<Longrightarrow> fst (retry_loop env m b a lg w) \<noteq> Inr None"
proof (induction k \<equiv> "m - a" arbitrary: a lg w)
  case 0
  then have am: "a = m" by simp
  show ?case
  proof (cases "call_outcome (env m)")
    case (Inr res)
    show ?thesis unfolding am by (simp add: retry_loop_success [where env = env, OF _ Inr])
  next
    case (Inl e)
    show ?thesis
    proof (cases "isinstance e APIConnectionError")
      case False
      show ?thesis unfolding am
        by (simp add: retry_loop_permanent [where env = env, OF _ Inl False])
    next
      case True
      show ?thesis unfolding am
        by (simp add: retry_loop_transient_last [where env = env, OF Inl True])
    qed
  qed
next
  case (Suc k)
  then have lt: "a < m" by simp
  then have le: "a \<le> m" by simp
  show ?case
  proof (cases "call_outcome (env a)")
    case (Inr res)
    show ?thesis by (simp add: retry_loop_success [where env = env, OF le Inr])
  next
    case (Inl e)
    show ?thesis
    proof (cases "isinstance e APIConnectionError")
      case False
      show ?thesis by (simp add: retry_loop_permanent [where env = env, OF le Inl False])
    next
      case True
      show ?thesis
      proof (cases "0 \<le> attempt_delay env b a")
        case False
        then have neg: "attempt_delay env b a < 0" by simp
        show ?thesis
          by (simp add: retry_loop_transient_bad_sleep [where env = env, OF lt Inl True neg])
      next
        case d: True
        have k: "k = m - Suc a" using Suc.hyps(2) by simp
        have "Suc a \<le> m" using lt by simp
        with Suc.hyps(1) [OF k] show ?thesis
          by (simp add: retry_loop_transient_retry [where env = env, OF lt Inl True d])
      qed
    qed
  qed
qed

lemma retry_loop_first_call:
  assumes le: "a \<le> m"
  shows "prefix (trace w @ [Request (Wrapped_call a)]) (trace (snd (retry_loop env m b a lg w)))"
proof (cases "call_outcome (env a)")
  case (Inr res)
  show ?thesis by (simp add: retry_loop_success [where env = env, OF le Inr] trace_remote_call)
next
  case (Inl e)
  show ?thesis
  proof (cases "isinstance e APIConnectionError")
    case False
    show ?thesis by (simp add: retry_loop_permanent [where env = env, OF le Inl False] trace_remote_call)
  next
    case True
    show ?thesis
    proof (cases "a < m")
      case False
      with le have "a = m" by simp
      then show ?thesis
        using retry_loop_transient_last [of env m e b lg w] Inl True
        by (simp add: trace_remote_call trace_print_lines)
    next
      case lt: True
      show ?thesis
      proof (cases "0 \<le> attempt_delay env b a")
        case False
        then have neg: "attempt_delay env b a < 0" by simp
        show ?thesis
          by (simp add: retry_loop_transient_bad_sleep [where env = env, OF lt Inl True neg]
                trace_remote_call trace_print_lines)
      next
        case d: True
        let ?w2 = "print_lines 1 (emit [Request (Wrapped_call a), Sleep (attempt_delay env b a)] w)"
        let ?lg2 = "lg @ [connection_error_entry a (env a) (attempt_delay env b a) e]"
        have "prefix (trace ?w2) (trace (snd (retry_loop env m b (Suc a) ?lg2 ?w2)))"
          by (rule retry_loop_trace_prefix)
        then have "prefix (trace w @ [Request (Wrapped_call a)])
                     (trace (snd (retry_loop env m b (Suc a) ?lg2 ?w2)))"
          by (simp add: trace_print_lines trace_emit) (metis append_prefixD append.assoc append_Cons append_Nil)
        then show ?thesis
          by (simp add: retry_loop_transient_retry [where env = env, OF lt Inl True d])
      qed
    qed
  qed
qed

lemma uniform_half_bounds: "0 \<le> u \<Longrightarrow> u \<le> 1 \<Longrightarrow> 0 \<le> uniform 0 (1 / 2) u \<and> uniform 0 (1 / 2) u \<le> 1 / 2"
  by (simp add: uniform_def)

lemma attempt_delay_nonneg:
  "0 \<le> b \<Longrightarrow> 0 \<le> random_u (env k) \<Longrightarrow> 0 \<le> attempt_delay env b k"
  by (simp add: attempt_delay_def backoff_delay_def uniform_def)

text \<open>
  C4 (as amended). For a non-negative \<open>base_delay\<close>: when attempts \<open>1..n\<close> fail transiently and
  \<open>n < max_retries\<close>, the run starts with attempt 1 (no sleep before it) and each failing
  attempt \<open>k\<close> is followed by exactly one sleep of \<open>base_delay * 2^(k-1) + j\<close> and then by
  attempt \<open>k+1\<close>, where the jitter \<open>j\<close> lies in the fixed interval \<open>[0, 0.5]\<close>, whatever
  \<open>base_delay\<close> is. (That the jitter is uniformly distributed is not modelled.)
\<close>

theorem C4_backoff_schedule:
  assumes "n < max_retries" and "0 \<le> base_delay"
    and "\<forall>k\<in>{1..n}. is_transient (env k) \<and> 0 \<le> random_u (env k) \<and> random_u (env k) \<le> 1"
  shows "prefix (trace w @ backoff_events env base_delay [1..<Suc n] @ [Request (Wrapped_call (Suc n))])
            (trace (snd (retry_with_backoff env max_retries base_delay w)))
       \<and> (\<forall>k\<in>{1..n}.
            attempt_delay env base_delay k
              = base_delay * 2 ^ (k - 1) + uniform 0 (1 / 2) (random_u (env k))
          \<and> 0 \<le> uniform 0 (1 / 2) (random_u (env k))
          \<and> uniform 0 (1 / 2) (random_u (env k)) \<le> 1 / 2)"
proof (intro conjI ballI)
  let ?w2 = "print_lines (Suc n - 1) (emit (backoff_events env base_delay [1..<Suc n]) w)"
  let ?lg2 = "[] @ connection_error_entries env base_delay [1..<Suc n]"
  have run: "retry_loop env max_retries base_delay 1 [] w
               = retry_loop env max_retries base_delay (Suc n) ?lg2 ?w2"
  proof (rule retry_loop_transient_prefix)
    show "1 \<le> Suc n" by simp
    show "Suc n \<le> max_retries" using assms(1) by simp
    fix k assume "1 \<le> k" "k < Suc n"
    then have "k \<in> {1..n}" by simp
    with assms(3) have "is_transient (env k)" "0 \<le> random_u (env k)" by auto
    then show "is_transient (env k) \<and> 0 \<le> attempt_delay env base_delay k"
      using attempt_delay_nonneg [OF assms(2)] by simp
  qed
  have "prefix (trace ?w2 @ [Request (Wrapped_call (Suc n))])
          (trace (snd (retry_loop env max_retries base_delay (Suc n) ?lg2 ?w2)))"
    by (rule retry_loop_first_call) (use assms(1) in simp)
  then show "prefix (trace w @ backoff_events env base_delay [1..<Suc n] @ [Request (Wrapped_call (Suc n))])
            (trace (snd (retry_with_backoff env max_retries base_delay w)))"
    unfolding retry_with_backoff_def run by (simp add: trace_print_lines trace_emit)
next
  fix k assume k: "k \<in> {1..n}"
  show "attempt_delay env base_delay k
          = base_delay * 2 ^ (k - 1) + uniform 0 (1 / 2) (random_u (env k))"
    by (simp add: attempt_delay_def backoff_delay_def)
  from k assms(3) have "0 \<le> random_u (env k)" "random_u (env k) \<le> 1" by auto
  then show "0 \<le> uniform 0 (1 / 2) (random_u (env k))" "uniform 0 (1 / 2) (random_u (env k)) \<le> 1 / 2"
    using uniform_half_bounds by simp_all
qed

lemma is_transient_always_timeout: "is_transient (always_timeout k)"
  by (simp add: is_transient_def always_timeout_def timeout_error_def isinstance_def issubclass_def)

lemma attempt_delay_always_timeout:
  "attempt_delay always_timeout b k = b * 2 ^ (k - 1) + 9 / 20"
  by (simp add: attempt_delay_def backoff_delay_def uniform_def always_timeout_def)

lemma random_u_always_timeout: "random_u (always_timeout k) = 9 / 10"
  by (simp add: always_timeout_def)

text \<open>
  C4 (as amended) at \<open>max_retries = 2\<close>, \<open>base_delay = 1\<close> and a first attempt that times out
  with the random draw 0.9: attempt 1, a sleep of \<open>1 + 0.45\<close>, attempt 2.
\<close>

theorem C4_backoff_schedule_witness:
  "prefix [Request (Wrapped_call 1), Sleep (29 / 20), Request (Wrapped_call 2)]
     (trace (snd (retry_with_backoff always_timeout 2 1 w0)))"
  using C4_backoff_schedule [of 1 2 1 always_timeout w0]
  by (simp add: is_transient_always_timeout backoff_events_def attempt_delay_always_timeout w0_def
        random_u_always_timeout eval_nat_numeral)

text \<open>
  C4 as stated fails: with \<open>base_delay = 0.5\<close> and the random draw 0.9, the sleep after
  attempt 1 is \<open>0.95 = 0.5 * 2^0 + 0.45\<close>, and the jitter \<open>0.45\<close> is not in
  \<open>[0, base_delay / 2] = [0, 0.25]\<close>.
\<close>

theorem C4_jitter_exceeds_half_base_delay:
  "sleeps_of (trace (snd (retry_with_backoff always_timeout 2 (1 / 2) w0))) = [19 / 20]
   \<and> \<not> (19 / 20 - (1 / 2) * 2 ^ (1 - 1) \<le> (1 / 2) / (2::real))"
proof -
  have "retry_loop always_timeout 2 (1 / 2) 1 [] w0 =
          (Inr (Some (None, [] @ connection_error_entries always_timeout (1 / 2) [1..<Suc 2])),
           print_lines (Suc 2 - 1)
             (emit (backoff_events always_timeout (1 / 2) [1..<2] @ [Request (Wrapped_call 2)]) w0))"
    by (rule retry_loop_all_transient)
       (simp_all add: is_transient_always_timeout attempt_delay_always_timeout)
  then show ?thesis
    by (simp add: retry_with_backoff_def trace_print_lines trace_emit backoff_events_def
          attempt_delay_always_timeout w0_def eval_nat_numeral)
qed

text \<open>
  C5. A Stripe error that is not a connection error (a definitive rejection, or an
  idempotency-key collision) is surfaced at once and never retried.
  In \<^verbatim>\<open>create_payment_safely\<close>: exactly one request is sent, the result is a failure
  dictionary, and its \<^verbatim>\<open>error_type\<close> is \<^verbatim>\<open>idempotency_collision\<close> for a collision and the
  class name of the exception, which is never \<^verbatim>\<open>idempotency_collision\<close>, for any other error.
  In \<^verbatim>\<open>retry_with_backoff\<close>: at whatever attempt the error is raised, the loop appends one
  \<^verbatim>\<open>stripe_error\<close> entry and returns \<^verbatim>\<open>(None, audit_log)\<close> with no sleep and no further call;
  raised at the first attempt, exactly one call is made.
\<close>

theorem C5_permanent_errors_not_retried:
  assumes "exc_class e \<noteq> APIConnectionError"
  shows "(remote (create_request amt currency descr key) = Inl e \<longrightarrow>
            (let r = fst (create_payment_safely remote amt currency descr key email w);
                 w' = snd (create_payment_safely remote amt currency descr key email w)
             in \<not> isl r
              \<and> projr r ''success'' = Some (PBool False)
              \<and> projr r ''error_type''
                  = Some (PStr (if exc_class e = IdempotencyError then ''idempotency_collision''
                                else class_name (exc_class e)))
              \<and> class_name (exc_class e) \<noteq> ''idempotency_collision''
              \<and> trace w' = trace w
                   @ [Request (PaymentIntent_create (create_request amt currency descr key))]))
       \<and> (1 \<le> attempt \<and> attempt \<le> max_retries \<and> call_outcome (env attempt) = Inl e \<longrightarrow>
            retry_loop env max_retries base_delay attempt lg w
              = (Inr (Some (None, lg @ [stripe_error_entry attempt (env attempt) e])),
                 remote_call (Wrapped_call attempt) w))
       \<and> (1 \<le> max_retries \<and> call_outcome (env 1) = Inl e \<longrightarrow>
            (let r = fst (retry_with_backoff env max_retries base_delay w);
                 w' = snd (retry_with_backoff env max_retries base_delay w)
             in r = Inr (Some (None, [stripe_error_entry 1 (env 1) e]))
              \<and> stripe_error_entry 1 (env 1) e ''status'' = Some (PStr ''stripe_error'')
              \<and> stripe_error_entry 1 (env 1) e ''error'' = Some (PStr (exc_str e))
              \<and> trace w' = trace w @ [Request (Wrapped_call 1)]))"
proof (intro conjI impI)
  assume r: "remote (create_request amt currency descr key) = Inl e"
  show "let r = fst (create_payment_safely remote amt currency descr key email w);
            w' = snd (create_payment_safely remote amt currency descr key email w)
        in \<not> isl r
         \<and> projr r ''success'' = Some (PBool False)
         \<and> projr r ''error_type''
             = Some (PStr (if exc_class e = IdempotencyError then ''idempotency_collision''
                           else class_name (exc_class e)))
         \<and> class_name (exc_class e) \<noteq> ''idempotency_collision''
         \<and> trace w' = trace w
              @ [Request (PaymentIntent_create (create_request amt currency descr key))]"
    by (simp add: Let_def create_payment_safely_raised [where remote = remote, OF r]
          class_name_not_collision trace_remote_call)
next
  assume a: "1 \<le> attempt \<and> attempt \<le> max_retries \<and> call_outcome (env attempt) = Inl e"
  have ne: "\<not> isinstance e APIConnectionError"
    using assms by (simp add: isinstance_APIConnectionError)
  from a have le: "attempt \<le> max_retries" and o: "call_outcome (env attempt) = Inl e" by simp_all
  show "retry_loop env max_retries base_delay attempt lg w
          = (Inr (Some (None, lg @ [stripe_error_entry attempt (env attempt) e])),
             remote_call (Wrapped_call attempt) w)"
    by (rule retry_loop_permanent [where env = env, OF le o ne])
next
  assume a: "1 \<le> max_retries \<and> call_outcome (env 1) = Inl e"
  have ne: "\<not> isinstance e APIConnectionError"
    using assms by (simp add: isinstance_APIConnectionError)
  from a have le: "1 \<le> max_retries" and o: "call_outcome (env 1) = Inl e" by simp_all
  have eq: "retry_with_backoff env max_retries base_delay w
              = (Inr (Some (None, [] @ [stripe_error_entry 1 (env 1) e])),
                 remote_call (Wrapped_call 1) w)"
    unfolding retry_with_backoff_def by (rule retry_loop_permanent [where env = env, OF le o ne])
  show "let r = fst (retry_with_backoff env max_retries base_delay w);
            w' = snd (retry_with_backoff env max_retries base_delay w)
        in r = Inr (Some (None, [stripe_error_entry 1 (env 1) e]))
         \<and> stripe_error_entry 1 (env 1) e ''status'' = Some (PStr ''stripe_error'')
         \<and> stripe_error_entry 1 (env 1) e ''error'' = Some (PStr (exc_str e))
         \<and> trace w' = trace w @ [Request (Wrapped_call 1)]"
    by (simp add: Let_def eq trace_remote_call entry_status entry_error)
qed

text \<open>
  C5 at a key collision: the submitter reports \<^verbatim>\<open>idempotency_collision\<close> after one request, and
  the retrier with \<open>max_retries = 3\<close> stops after one call.
\<close>

theorem C5_permanent_errors_not_retried_witness:
  "projr (fst (create_payment_safely (\<lambda>req. Inl collision_error) 20000 ''eur''
                 ''Collision test'' ''k1'' None w0)) ''error_type''
     = Some (PStr ''idempotency_collision'')
   \<and> trace (snd (create_payment_safely (\<lambda>req. Inl collision_error) 20000 ''eur''
                 ''Collision test'' ''k1'' None w0))
     = [Request (PaymentIntent_create (create_request 20000 ''eur'' ''Collision test'' ''k1''))]
   \<and> fst (retry_with_backoff always_collision 3 1 w0)
     = Inr (Some (None, [stripe_error_entry 1 (always_collision 1) collision_error]))
   \<and> trace (snd (retry_with_backoff always_collision 3 1 w0)) = [Request (Wrapped_call 1)]"
  using C5_permanent_errors_not_retried
          [of collision_error "\<lambda>req. Inl collision_error" 20000 "''eur''" "''Collision test''"
              "''k1''" None w0 1 3 always_collision 1 "[]"]
  by (simp add: Let_def collision_error_def always_collision_def w0_def)

lemma requests_of_backoff_events:
  "requests_of (backoff_events env b ks) = map Wrapped_call ks"
  by (induction ks) (simp_all add: backoff_events_def)

lemma sleeps_of_backoff_events:
  "sleeps_of (backoff_events env b ks) = map (attempt_delay env b) ks"
  by (induction ks) (simp_all add: backoff_events_def)

lemma last_connection_error_entries:
  "1 \<le> m \<Longrightarrow> last (connection_error_entries env b [1..<Suc m])
     = connection_error_entry m (env m) (attempt_delay env b m) (projl (call_outcome (env m)))"
  by (simp add: connection_error_entries_def)

text \<open>
  C6. For \<open>max_retries \<ge> 1\<close>, \<^verbatim>\<open>retry_with_backoff\<close> invokes the wrapped call \<open>n \<le> max_retries\<close>
  times, as attempts \<open>1..n\<close>; whenever it returns, it returns a pair whose log has exactly one
  entry per attempt, entry \<open>k\<close> holding the attempt number \<open>k\<close> and the elapsed milliseconds of
  attempt \<open>k\<close>; and when all \<open>max_retries\<close> attempts fail transiently (\<open>base_delay\<close> being a
  non-negative duration), it makes exactly \<open>max_retries\<close> calls, does not sleep after the last
  one, and returns \<^verbatim>\<open>(None, audit_log)\<close> whose last entry is a \<^verbatim>\<open>connection_error\<close> entry
  holding the message of the last transient error.
\<close>

theorem C6_retry_bounded_logged_gives_up:
  assumes "1 \<le> max_retries"
  shows "(let r = fst (retry_with_backoff env max_retries base_delay w);
              w' = snd (retry_with_backoff env max_retries base_delay w);
              n = length (requests_of (trace w')) - length (requests_of (trace w))
          in n \<le> max_retries
           \<and> requests_of (trace w') = requests_of (trace w) @ map Wrapped_call [1..<Suc n]
           \<and> r \<noteq> Inr None
           \<and> (\<forall>res lg. r = Inr (Some (res, lg)) \<longrightarrow>
                 length lg = n
               \<and> map attempt_of lg = map (\<lambda>k. Some (PInt (int k))) [1..<Suc n]
               \<and> map elapsed_ms_of lg
                   = map (\<lambda>k. Some (PInt (py_round (elapsed (env k) * 1000)))) [1..<Suc n])
           \<and> (0 \<le> base_delay
                \<and> (\<forall>k\<in>{1..max_retries}. is_transient (env k) \<and> 0 \<le> random_u (env k)) \<longrightarrow>
                 n = max_retries
               \<and> r = Inr (Some (None, connection_error_entries env base_delay [1..<Suc max_retries]))
               \<and> trace w' = trace w @ backoff_events env base_delay [1..<max_retries]
                               @ [Request (Wrapped_call max_retries)]
               \<and> last (connection_error_entries env base_delay [1..<Suc max_retries]) ''status''
                   = Some (PStr ''connection_error'')
               \<and> last (connection_error_entries env base_delay [1..<Suc max_retries]) ''error''
                   = Some (PStr (exc_str (projl (call_outcome (env max_retries)))))))"
proof -
  let ?run = "retry_loop env max_retries base_delay 1 [] w"
  let ?n = "length (requests_of (trace (snd ?run))) - length (requests_of (trace w))"
  from retry_loop_invariant [of max_retries 1 env base_delay "[]" w]
  obtain n0 where n0: "n0 \<le> Suc max_retries - 1"
    and rq: "requests_of (trace (snd ?run)) = requests_of (trace w) @ map Wrapped_call [1..<1 + n0]"
    and lgs: "\<And>res lg. fst ?run = Inr (Some (res, lg)) \<Longrightarrow>
         map attempt_of lg = map attempt_of [] @ map (\<lambda>k. Some (PInt (int k))) [1..<1 + n0]
       \<and> map elapsed_ms_of lg = map elapsed_ms_of []
            @ map (\<lambda>k. Some (PInt (py_round (elapsed (env k) * 1000)))) [1..<1 + n0]"
    by blast
  have n: "?n = n0" unfolding rq by simp
  have p1: "?n \<le> max_retries" using n0 n by simp
  have p2: "requests_of (trace (snd ?run)) = requests_of (trace w) @ map Wrapped_call [1..<Suc ?n]"
    using rq unfolding n by simp
  have p3: "fst ?run \<noteq> Inr None"
    by (rule retry_loop_not_None) (rule assms)
  have p4: "\<forall>res lg. fst ?run = Inr (Some (res, lg)) \<longrightarrow>
                 length lg = ?n
               \<and> map attempt_of lg = map (\<lambda>k. Some (PInt (int k))) [1..<Suc ?n]
               \<and> map elapsed_ms_of lg
                   = map (\<lambda>k. Some (PInt (py_round (elapsed (env k) * 1000)))) [1..<Suc ?n]"
  proof (intro allI impI)
    fix res lg assume r: "fst ?run = Inr (Some (res, lg))"
    from lgs [OF r] have a: "map attempt_of lg = map (\<lambda>k. Some (PInt (int k))) [1..<Suc n0]"
      and e: "map elapsed_ms_of lg
                = map (\<lambda>k. Some (PInt (py_round (elapsed (env k) * 1000)))) [1..<Suc n0]"
      by simp_all
    from a have "length (map attempt_of lg) = length (map (\<lambda>k. Some (PInt (int k))) [1..<Suc n0])"
      by (rule arg_cong)
    then have "length lg = n0" by simp
    with a e show "length lg = ?n
               \<and> map attempt_of lg = map (\<lambda>k. Some (PInt (int k))) [1..<Suc ?n]
               \<and> map elapsed_ms_of lg
                   = map (\<lambda>k. Some (PInt (py_round (elapsed (env k) * 1000)))) [1..<Suc ?n]"
      unfolding n by simp
  qed
  have p5: "0 \<le> base_delay
                \<and> (\<forall>k\<in>{1..max_retries}. is_transient (env k) \<and> 0 \<le> random_u (env k)) \<longrightarrow>
                 ?n = max_retries
               \<and> fst ?run = Inr (Some (None, connection_error_entries env base_delay [1..<Suc max_retries]))
               \<and> trace (snd ?run) = trace w @ backoff_events env base_delay [1..<max_retries]
                               @ [Request (Wrapped_call max_retries)]
               \<and> last (connection_error_entries env base_delay [1..<Suc max_retries]) ''status''
                   = Some (PStr ''connection_error'')
               \<and> last (connection_error_entries env base_delay [1..<Suc max_retries]) ''error''
                   = Some (PStr (exc_str (projl (call_outcome (env max_retries)))))"
  proof (intro impI)
    assume h: "0 \<le> base_delay
                \<and> (\<forall>k\<in>{1..max_retries}. is_transient (env k) \<and> 0 \<le> random_u (env k))"
    have run: "?run =
           (Inr (Some (None, [] @ connection_error_entries env base_delay [1..<Suc max_retries])),
            print_lines (Suc max_retries - 1)
              (emit (backoff_events env base_delay [1..<max_retries]
                       @ [Request (Wrapped_call max_retries)]) w))"
    proof (rule retry_loop_all_transient)
      show "1 \<le> max_retries" by (rule assms)
      fix k assume "1 \<le> k" "k \<le> max_retries"
      then show "is_transient (env k)" using h by simp
    next
      fix k assume "1 \<le> k" "k < max_retries"
      then have "0 \<le> random_u (env k)" using h by simp
      then show "0 \<le> attempt_delay env base_delay k"
        using h attempt_delay_nonneg by simp
    qed
    have nm: "?n = max_retries"
      using assms unfolding run
      by (simp add: trace_print_lines trace_emit requests_of_append requests_of_backoff_events)
    have l1: "last (connection_error_entries env base_delay [1..<Suc max_retries]) ''status''
                   = Some (PStr ''connection_error'')"
      by (simp only: last_connection_error_entries [OF assms] entry_status)
    have l2: "last (connection_error_entries env base_delay [1..<Suc max_retries]) ''error''
                   = Some (PStr (exc_str (projl (call_outcome (env max_retries)))))"
      by (simp only: last_connection_error_entries [OF assms] entry_error)
    show "?n = max_retries
               \<and> fst ?run = Inr (Some (None, connection_error_entries env base_delay [1..<Suc max_retries]))
               \<and> trace (snd ?run) = trace w @ backoff_events env base_delay [1..<max_retries]
                               @ [Request (Wrapped_call max_retries)]
               \<and> last (connection_error_entries env base_delay [1..<Suc max_retries]) ''status''
                   = Some (PStr ''connection_error'')
               \<and> last (connection_error_entries env base_delay [1..<Suc max_retries]) ''error''
                   = Some (PStr (exc_str (projl (call_outcome (env max_retries)))))"
      using nm l1 l2 unfolding run
      by (simp add: trace_print_lines trace_emit)
  qed
  show ?thesis
    unfolding retry_with_backoff_def Let_def
    using p1 p2 p3 p4 p5 by blast
qed

text \<open>
  C6 at \<open>max_retries = 2\<close>, \<open>base_delay = 1\<close> and two timeouts: two calls, one sleep between
  them, and the last log entry holds the timeout message.
\<close>

theorem C6_retry_bounded_logged_gives_up_witness:
  "fst (retry_with_backoff always_timeout 2 1 w0)
     = Inr (Some (None, connection_error_entries always_timeout 1 [1..<Suc 2]))
   \<and> trace (snd (retry_with_backoff always_timeout 2 1 w0))
     = [Request (Wrapped_call 1), Sleep (29 / 20), Request (Wrapped_call 2)]
   \<and> last (connection_error_entries always_timeout 1 [1..<Suc 2]) ''error''
     = Some (PStr ''Connection timed out'')"
  using C6_retry_bounded_logged_gives_up [of 2 always_timeout 1 w0]
  by (simp add: Let_def is_transient_always_timeout random_u_always_timeout backoff_events_def
        attempt_delay_always_timeout w0_def eval_nat_numeral)
     (simp add: always_timeout_def timeout_error_def)

text \<open>
  C10 at three concrete answers of the remote side: a key collision, a connection error
  and a created PaymentIntent.
\<close>

theorem C10_create_payment_safely_total_witness:
  "(projr (fst (create_payment_safely (\<lambda>req. Inl collision_error) 20000 ''eur''
                 ''Collision test'' ''k1'' None w0))) ''error_type''
      = Some (PStr ''idempotency_collision'')
   \<and> (projr (fst (create_payment_safely (\<lambda>req. Inl timeout_error) 20000 ''eur''
                 ''Collision test'' ''k1'' None w0))) ''error_type''
      \<noteq> Some (PStr ''idempotency_collision'')
   \<and> (projr (fst (create_payment_safely
                 (\<lambda>req. Inr \<lparr>pio_id = ''pi_1'', pio_amount = req_amount req,
                               pio_status = ''requires_payment_method''\<rparr>) 20000 ''eur''
                 ''Collision test'' ''k1'' None w0))) ''payment_intent_id''
      = Some (PStr ''pi_1'')"
  using C10_create_payment_safely_total
          [of 20000 "''eur''" "''Collision test''" "''k1''" "\<lambda>req. Inl collision_error" None w0]
        C10_create_payment_safely_total
          [of 20000 "''eur''" "''Collision test''" "''k1''" "\<lambda>req. Inl timeout_error" None w0]
        C10_create_payment_safely_total
          [of 20000 "''eur''" "''Collision test''" "''k1''"
              "\<lambda>req. Inr \<lparr>pio_id = ''pi_1'', pio_amount = req_amount req,
                               pio_status = ''requires_payment_method''\<rparr>" None w0]
  by (simp add: Let_def collision_error_def timeout_error_def)

section \<open>Properties of the bulk refund\<close>

subsection \<open>The preview\<close>

lemma dry_run_eq:
  "dry_run eligible w
     = (sum_list (map refundable eligible), print_lines (dry_run_lines eligible) w)"
  by (simp add: dry_run_def dry_run_lines_def Let_def print_lines_print_lines)

lemma dry_run_times_eq:
  "dry_run_times n eligible w
     = (replicate n (sum_list (map refundable eligible)),
        print_lines (n * dry_run_lines eligible) w)"
proof (induction n arbitrary: w)
  case 0
  show ?case by (simp add: print_lines_0)
next
  case (Suc n)
  show ?case
    by (simp add: Suc.IH dry_run_eq Let_def print_lines_print_lines add.commute)
qed

text \<open>
  C8. \<^verbatim>\<open>dry_run\<close> is a read of the list of eligible payments: it returns the sum of their
  refundable amounts and leaves the trace of requests and sleeps as it was, so it contacts
  nothing. Called \<open>n\<close> times in a row on the same list it returns the same total \<open>n\<close> times,
  and the state after the calls differs from the state before only in the number of lines
  printed on the console. (The list itself is a value of the model; the source assigns to
  none of its elements.)
\<close>

theorem C8_dry_run_reads_only:
  "fst (dry_run eligible w) = sum_list (map refundable eligible)
   \<and> trace (snd (dry_run eligible w)) = trace w
   \<and> fst (dry_run_times n eligible w) = replicate n (sum_list (map refundable eligible))
   \<and> trace (snd (dry_run_times n eligible w)) = trace w
   \<and> snd (dry_run_times n eligible w) = print_lines (n * dry_run_lines eligible) w"
  by (simp add: dry_run_eq dry_run_times_eq trace_print_lines)

text \<open>
  C8 at three calls on a plan with 500, 300 and 200 to refund: each call returns 1000, and
  only the 54 printed lines remain.
\<close>

theorem C8_dry_run_reads_only_witness:
  "fst (dry_run_times 3 plan_1000 w0) = [1000, 1000, 1000]
   \<and> snd (dry_run_times 3 plan_1000 w0) = \<lparr>trace = [], console = 54\<rparr>"
proof -
  from C8_dry_run_reads_only [of plan_1000 w0 3]
  have a: "fst (dry_run_times 3 plan_1000 w0) = replicate 3 (sum_list (map refundable plan_1000))"
    and b: "snd (dry_run_times 3 plan_1000 w0) = print_lines (3 * dry_run_lines plan_1000) w0"
    by blast+
  show ?thesis
    unfolding a b
    by (simp add: plan_1000_def demo_payment_def dry_run_lines_def print_lines_def w0_def
          eval_nat_numeral)
qed

subsection \<open>The discovery\<close>

lemma discover_loop_Inr:
  assumes "fst (discover_loop remote pids el sk w) = Inr (el', sk')"
  shows "(\<forall>pid\<in>set pids. \<not> isl (remote pid))
       \<and> el' = el @ map eligible_entry (filter is_eligible (map (projr \<circ> remote) pids))
       \<and> sk' = sk @ map skip_entry (filter (\<lambda>i. \<not> is_eligible i) (map (projr \<circ> remote) pids))"
  using assms
proof (induction pids arbitrary: el sk w)
  case Nil
  then show ?case by simp
next
  case (Cons pid rest)
  show ?case
  proof (cases "remote pid")
    case (Inl e)
    with Cons.prems show ?thesis by (simp add: Let_def)
  next
    case (Inr intent)
    show ?thesis
    proof (cases "pi_status intent = ''succeeded''")
      case False
      with Cons.prems Inr
      have "fst (discover_loop remote rest el
                   (sk @ [\<lparr>skip_pi_id = pi_ident intent, reason = status_reason (pi_status intent)\<rparr>])
                   (remote_call (PaymentIntent_retrieve pid) w)) = Inr (el', sk')"
        by (simp add: Let_def)
      from Cons.IH [OF this] Inr False show ?thesis
        by (simp add: is_eligible_def skip_entry_def)
    next
      case True
      show ?thesis
      proof (cases "pi_amount intent - already_refunded_of intent \<le> 0")
        case full: True
        with Cons.prems Inr True
        have "fst (discover_loop remote rest el
                     (sk @ [\<lparr>skip_pi_id = pi_ident intent, reason = ''Already fully refunded''\<rparr>])
                     (remote_call (PaymentIntent_retrieve pid) w)) = Inr (el', sk')"
          by (simp add: Let_def)
        from Cons.IH [OF this] Inr True full show ?thesis
          by (simp add: is_eligible_def skip_entry_def fully_refunded_def)
      next
        case False
        with Cons.prems Inr True
        have "fst (discover_loop remote rest (el @ [eligible_entry intent]) sk
                     (remote_call (PaymentIntent_retrieve pid) w)) = Inr (el', sk')"
          by (simp add: Let_def)
        from Cons.IH [OF this] Inr True False show ?thesis
          by (simp add: is_eligible_def skip_entry_def fully_refunded_def)
      qed
    qed
  qed
qed

lemma fst_discover_eligible_payments:
  "fst (discover_eligible_payments remote test_pi_ids w)
     = fst (discover_loop remote (candidates test_pi_ids) [] [] (print_lines 6 w))"
proof (cases test_pi_ids)
  case None
  then show ?thesis by (simp add: discover_eligible_payments_def candidates_def)
next
  case (Some pids)
  show ?thesis
  proof (cases pids)
    case Nil
    with Some show ?thesis by (simp add: discover_eligible_payments_def candidates_def)
  next
    case (Cons pid rest)
    show ?thesis
      unfolding Some Cons discover_eligible_payments_def candidates_def Let_def
      by (simp split: prod.splits sum.splits)
  qed
qed

lemma refundable_eligible_entry:
  "refundable (eligible_entry intent) = pi_amount intent - already_refunded_of intent"
  "amount (eligible_entry intent) = pi_amount intent"
  "already_refunded (eligible_entry intent) = already_refunded_of intent"
  by (simp_all add: eligible_entry_def)

text \<open>
  C7 (as amended). When \<^verbatim>\<open>discover_eligible_payments\<close> returns, every eligible payment has
  \<open>refundable = amount - already_refunded\<close> and \<open>refundable > 0\<close>; every candidate was
  retrieved; a candidate with nothing left to refund is not among the eligible payments and
  is in the skip list, with the reason \<^verbatim>\<open>Already fully refunded\<close> when its status is
  \<^verbatim>\<open>succeeded\<close> and with the reason naming its status otherwise; and every candidate is in
  exactly one of the two lists.
\<close>

theorem C7_eligible_have_positive_remainder:
  assumes "fst (discover_eligible_payments remote test_pi_ids w) = Inr (eligible, skipped)"
  shows "(\<forall>p\<in>set eligible. refundable p = amount p - already_refunded p \<and> 0 < refundable p)
       \<and> (\<forall>pid\<in>set (candidates test_pi_ids).
            \<not> isl (remote pid)
          \<and> (fully_refunded (projr (remote pid)) \<longrightarrow>
               eligible_entry (projr (remote pid)) \<notin> set eligible
             \<and> skip_entry (projr (remote pid)) \<in> set skipped
             \<and> reason (skip_entry (projr (remote pid)))
                 = (if pi_status (projr (remote pid)) = ''succeeded'' then ''Already fully refunded''
                    else status_reason (pi_status (projr (remote pid))))))
       \<and> length eligible + length skipped = length (candidates test_pi_ids)"
proof -
  let ?ints = "map (projr \<circ> remote) (candidates test_pi_ids)"
  from assms
  have "fst (discover_loop remote (candidates test_pi_ids) [] [] (print_lines 6 w))
          = Inr (eligible, skipped)"
    by (simp only: fst_discover_eligible_payments)
  from discover_loop_Inr [OF this]
  have ok: "\<forall>pid\<in>set (candidates test_pi_ids). \<not> isl (remote pid)"
    and el: "eligible = map eligible_entry (filter is_eligible ?ints)"
    and sk: "skipped = map skip_entry (filter (\<lambda>i. \<not> is_eligible i) ?ints)"
    by simp_all
  have pos: "\<forall>p\<in>set eligible. refundable p = amount p - already_refunded p \<and> 0 < refundable p"
    unfolding el
    by (auto simp add: refundable_eligible_entry is_eligible_def fully_refunded_def)
  have len: "length eligible + length skipped = length (candidates test_pi_ids)"
    unfolding el sk
    using sum_length_filter_compl [of is_eligible ?ints] by simp
  have full: "\<forall>pid\<in>set (candidates test_pi_ids).
            \<not> isl (remote pid)
          \<and> (fully_refunded (projr (remote pid)) \<longrightarrow>
               eligible_entry (projr (remote pid)) \<notin> set eligible
             \<and> skip_entry (projr (remote pid)) \<in> set skipped
             \<and> reason (skip_entry (projr (remote pid)))
                 = (if pi_status (projr (remote pid)) = ''succeeded'' then ''Already fully refunded''
                    else status_reason (pi_status (projr (remote pid)))))"
  proof (intro ballI conjI impI)
    fix pid assume pid: "pid \<in> set (candidates test_pi_ids)"
    show "\<not> isl (remote pid)" using ok pid by simp
    assume f: "fully_refunded (projr (remote pid))"
    show "eligible_entry (projr (remote pid)) \<notin> set eligible"
    proof
      assume "eligible_entry (projr (remote pid)) \<in> set eligible"
      with pos have "0 < refundable (eligible_entry (projr (remote pid)))" by blast
      with f show False by (simp add: refundable_eligible_entry fully_refunded_def)
    qed
    have "projr (remote pid) \<in> set ?ints" using pid by simp
    moreover have "\<not> is_eligible (projr (remote pid))" using f by (simp add: is_eligible_def)
    ultimately show "skip_entry (projr (remote pid)) \<in> set skipped"
      unfolding sk by simp
    show "reason (skip_entry (projr (remote pid)))
            = (if pi_status (projr (remote pid)) = ''succeeded'' then ''Already fully refunded''
               else status_reason (pi_status (projr (remote pid))))"
      by (simp add: skip_entry_def)
  qed
  from pos full len show ?thesis by blast
qed

lemma discover_demo:
  "fst (discover_eligible_payments retrieve_demo
          (Some [''pi_full'', ''pi_partial'', ''pi_refunded'', ''pi_canceled'']) w0)
     = Inr ([eligible_entry (demo_intent ''pi_full'' ''succeeded'' 0),
             eligible_entry (demo_intent ''pi_partial'' ''succeeded'' 5000)],
            [\<lparr>skip_pi_id = ''pi_refunded'', reason = ''Already fully refunded''\<rparr>,
             \<lparr>skip_pi_id = ''pi_canceled'', reason = status_reason ''canceled''\<rparr>])"
  by (simp add: fst_discover_eligible_payments candidates_def retrieve_demo_def demo_intent_def
        already_refunded_of_def Let_def)

text \<open>
  C7 (as amended) at a store of four payments: the untouched and the partly refunded payment
  are eligible with 34900 and 29900 to refund, the fully refunded one is skipped as
  \<^verbatim>\<open>Already fully refunded\<close>.
\<close>

theorem C7_eligible_have_positive_remainder_witness:
  "fst (discover_eligible_payments retrieve_demo
          (Some [''pi_full'', ''pi_partial'', ''pi_refunded'', ''pi_canceled'']) w0)
     = Inr ([eligible_entry (demo_intent ''pi_full'' ''succeeded'' 0),
             eligible_entry (demo_intent ''pi_partial'' ''succeeded'' 5000)],
            [\<lparr>skip_pi_id = ''pi_refunded'', reason = ''Already fully refunded''\<rparr>,
             \<lparr>skip_pi_id = ''pi_canceled'', reason = status_reason ''canceled''\<rparr>])
   \<and> map refundable [eligible_entry (demo_intent ''pi_full'' ''succeeded'' 0),
                     eligible_entry (demo_intent ''pi_partial'' ''succeeded'' 5000)] = [34900, 29900]
   \<and> fully_refunded (projr (retrieve_demo ''pi_refunded''))
   \<and> skip_entry (projr (retrieve_demo ''pi_refunded''))
       = \<lparr>skip_pi_id = ''pi_refunded'', reason = ''Already fully refunded''\<rparr>"
  using discover_demo C7_eligible_have_positive_remainder [OF discover_demo]
  by (simp add: candidates_def retrieve_demo_def demo_intent_def already_refunded_of_def
        fully_refunded_def eligible_entry_def skip_entry_def)

text \<open>
  C7 as stated fails: a payment cancelled before capture has nothing left to refund
  (\<open>amount - amount_refunded = 0\<close>), and it is skipped with the reason that names its status,
  not with a reason saying that it is fully refunded, because the status is tested first.
\<close>

theorem C7_fully_refunded_skipped_for_status:
  "pi_amount (demo_intent ''pi_canceled'' ''canceled'' 34900)
     - already_refunded_of (demo_intent ''pi_canceled'' ''canceled'' 34900) = 0
   \<and> fst (discover_eligible_payments retrieve_demo (Some [''pi_canceled'']) w0)
       = Inr ([], [\<lparr>skip_pi_id = ''pi_canceled'', reason = status_reason ''canceled''\<rparr>])
   \<and> status_reason ''canceled'' \<noteq> ''Already fully refunded''"
  by (simp add: fst_discover_eligible_payments candidates_def retrieve_demo_def demo_intent_def
        already_refunded_of_def Let_def status_reason_def)

subsection \<open>The execution\<close>

lemma execute_loop_run:
  "execute_loop env i plan res w =
     (Inr \<lparr>succeeded = succeeded res
                @ map (succeeded_of env) (filter (refund_ok env) (enumerate i plan)),
           failed = failed res
                @ map (failed_of env) (filter (\<lambda>item. \<not> refund_ok env item) (enumerate i plan))\<rparr>,
      print_lines (length plan + length (filter (pause_after env) (enumerate i plan)))
        (emit (concat (map (submission_events env) (enumerate i plan))) w))"
proof (induction plan arbitrary: i res w)
  case Nil
  show ?case by (cases res) (simp add: print_lines_0 emit_Nil)
next
  case (Cons payment rest)
  show ?case
  proof (cases "outcome (env i)")
    case (Inr r)
    show ?thesis
    proof (cases "i mod 20 = 0")
      case True
      show ?thesis
        using Inr True
        by (simp add: Cons.IH Let_def time_sleep_ok world_norm refund_ok_def pause_after_def
              submission_events_def submission_def succeeded_of_def)
    next
      case False
      show ?thesis
        using Inr False
        by (simp add: Cons.IH Let_def world_norm refund_ok_def pause_after_def
              submission_events_def submission_def succeeded_of_def)
    qed
  next
    case (Inl e)
    show ?thesis
      using Inl
      by (simp add: Cons.IH Let_def world_norm refund_ok_def pause_after_def
            submission_events_def submission_def failed_of_def isinstance_StripeError)
  qed
qed

lemma execute_bulk_refunds_run:
  "execute_bulk_refunds env eligible w =
     (Inr \<lparr>succeeded = map (succeeded_of env) (filter (refund_ok env) (enumerate 1 eligible)),
           failed = map (failed_of env)
                      (filter (\<lambda>item. \<not> refund_ok env item) (enumerate 1 eligible))\<rparr>,
      print_lines (5 + (length eligible + length (filter (pause_after env) (enumerate 1 eligible))))
        (emit (concat (map (submission_events env) (enumerate 1 eligible))) w))"
  by (simp add: execute_bulk_refunds_def execute_loop_run world_norm)

lemma requests_of_submission_events:
  "requests_of (concat (map (submission_events env) items)) = map (submission env) items"
  by (induction items) (simp_all add: submission_events_def requests_of_append)

lemma sleeps_of_submission_events:
  "sleeps_of (concat (map (submission_events env) items))
     = map (\<lambda>item. 1) (filter (pause_after env) items)"
  by (induction items) (simp_all add: submission_events_def sleeps_of_append)

lemma filter_enumerate:
  "map fst (filter (\<lambda>item. P (fst item)) (enumerate i xs)) = filter P [i..<i + length xs]"
proof -
  have "filter P (map fst (enumerate i xs)) = map fst (filter (P \<circ> fst) (enumerate i xs))"
    by (rule filter_map)
  then show ?thesis by (simp add: comp_def)
qed

lemma pause_after_fun:
  "pause_after env = (\<lambda>item. \<not> isl (outcome (env (fst item))) \<and> fst item mod 20 = 0)"
  by (rule ext) (simp add: pause_after_def refund_ok_def)

lemma pause_positions:
  "map fst (filter (pause_after env) (enumerate i plan))
     = filter (\<lambda>k. \<not> isl (outcome (env k)) \<and> k mod 20 = 0) [i..<i + length plan]"
  unfolding pause_after_fun
  by (rule filter_enumerate [of "\<lambda>k. \<not> isl (outcome (env k)) \<and> k mod 20 = 0"])

text \<open>
  C9. \<^verbatim>\<open>execute_bulk_refunds\<close> always returns. It sends exactly one \<^verbatim>\<open>Refund.create\<close> per
  eligible payment, in the order of the list and one after the other; a payment whose refund
  succeeded is in \<^verbatim>\<open>succeeded\<close>, one whose refund raised is in \<^verbatim>\<open>failed\<close>, each payment in
  exactly one of the two, in the order of the list. The only sleeps are pauses of one second,
  placed right after the \<open>k\<close>-th submission for the \<open>k\<close> divisible by 20 whose refund
  succeeded: the pause is fixed, it does not adapt to the answers, but it is left out when
  the 20th, 40th, ... submission fails.
\<close>

theorem C9_one_submission_per_target_in_order:
  "(let run = execute_bulk_refunds env eligible w;
        items = enumerate 1 eligible
    in fst run = Inr \<lparr>succeeded = map (succeeded_of env) (filter (refund_ok env) items),
                      failed = map (failed_of env) (filter (\<lambda>item. \<not> refund_ok env item) items)\<rparr>
     \<and> length (filter (refund_ok env) items)
         + length (filter (\<lambda>item. \<not> refund_ok env item) items) = length eligible
     \<and> trace (snd run) = trace w @ concat (map (submission_events env) items)
     \<and> requests_of (trace (snd run)) = requests_of (trace w) @ map (submission env) items
     \<and> sleeps_of (trace (snd run))
         = sleeps_of (trace w) @ map (\<lambda>item. 1) (filter (pause_after env) items)
     \<and> map fst (filter (pause_after env) items)
         = filter (\<lambda>k. \<not> isl (outcome (env k)) \<and> k mod 20 = 0) [1..<Suc (length eligible)])"
proof -
  have len: "length (filter (refund_ok env) (enumerate 1 eligible))
         + length (filter (\<lambda>item. \<not> refund_ok env item) (enumerate 1 eligible)) = length eligible"
    using sum_length_filter_compl [of "refund_ok env" "enumerate 1 eligible"] by simp
  have pos: "map fst (filter (pause_after env) (enumerate 1 eligible))
         = filter (\<lambda>k. \<not> isl (outcome (env k)) \<and> k mod 20 = 0) [1..<Suc (length eligible)]"
    using pause_positions [of env 1 eligible] by (simp only: plus_1_eq_Suc)
  show ?thesis
    unfolding Let_def execute_bulk_refunds_run
    using len pos
    by (simp add:  trace_print_lines trace_emit requests_of_append
          sleeps_of_append requests_of_submission_events sleeps_of_submission_events)
qed

lemma no_pause_when_twentieth_fails:
  assumes "length plan = 20" and "isl (outcome (env 20))"
  shows "filter (pause_after env) (enumerate (Suc 0) plan) = []"
proof -
  have "\<forall>item\<in>set (enumerate (Suc 0) plan). \<not> pause_after env item"
  proof
    fix item assume "item \<in> set (enumerate (Suc 0) plan)"
    then have "1 \<le> fst item" "fst item < 21"
      using assms(1) by (auto simp add: in_set_enumerate_eq)
    then have "fst item mod 20 = 0 \<Longrightarrow> fst item = 20" by presburger
    with assms(2) show "\<not> pause_after env item"
      by (auto simp add: pause_after_def refund_ok_def)
  qed
  then show ?thesis by (simp add: filter_empty_conv)
qed

lemma one_pause_when_twentieth_succeeds:
  assumes "length plan = 20" and "\<not> isl (outcome (env 20))"
  shows "length (filter (pause_after env) (enumerate (Suc 0) plan)) = Suc 0"
proof -
  let ?Q = "\<lambda>k. \<not> isl (outcome (env k)) \<and> k mod 20 = 0"
  have e: "map fst (filter (pause_after env) (enumerate (Suc 0) plan))
             = filter ?Q [Suc 0..<Suc 0 + length plan]"
    by (rule pause_positions)
  have le: "Suc 0 \<le> (20::nat)" by simp
  have u: "[Suc 0..<Suc 0 + length plan] = [Suc 0..<20] @ [20]"
  proof -
    have "Suc 0 + length plan = Suc 20" using assms(1) by simp
    then show ?thesis using upt_snoc_Suc [OF le] by (simp only:)
  qed
  have "\<forall>k\<in>set [Suc 0..<20]. \<not> ?Q k"
  proof
    fix k :: nat assume "k \<in> set [Suc 0..<20]"
    then have "1 \<le> k" "k < 20" by simp_all
    then have "k mod 20 \<noteq> 0" by presburger
    then show "\<not> ?Q k" by simp
  qed
  then have z: "filter ?Q [Suc 0..<20] = []"
    by (simp only: filter_empty_conv)
  have "filter ?Q ([Suc 0..<20] @ [20]) = [20]"
    unfolding filter_append z using assms(2) by simp
  with e u have "map fst (filter (pause_after env) (enumerate (Suc 0) plan)) = [20]"
    by (simp only:)
  then have "length (map fst (filter (pause_after env) (enumerate (Suc 0) plan))) = length [20::nat]"
    by (rule arg_cong)
  then show ?thesis by simp
qed

text \<open>
  The pause after a chunk of 20 submissions is missing when the 20th submission fails: with
  twenty payments and the 20th refund declined, twenty requests are sent and the run never
  sleeps, while the same plan with twenty successful refunds pauses once. The source's own
  recommendation is \<^verbatim>\<open>add a small pause every 20 requests\<close>.
\<close>

theorem C9_no_pause_when_twentieth_submission_fails:
  "length (requests_of (trace (snd (execute_bulk_refunds (refund_env 20)
              (replicate 20 (demo_payment ''pi_a'' 34900 0)) w0)))) = 20
   \<and> sleeps_of (trace (snd (execute_bulk_refunds (refund_env 20)
              (replicate 20 (demo_payment ''pi_a'' 34900 0)) w0))) = []
   \<and> length (sleeps_of (trace (snd (execute_bulk_refunds (refund_env 0)
              (replicate 20 (demo_payment ''pi_a'' 34900 0)) w0)))) = 1"
proof -
  let ?plan = "replicate 20 (demo_payment ''pi_a'' 34900 0)"
  have l: "length ?plan = 20" by simp
  have bad: "isl (outcome (refund_env 20 20))" by (simp add: refund_env_def)
  have good: "\<not> isl (outcome (refund_env 0 20))" by (simp add: refund_env_def)
  show ?thesis
    by (simp add: execute_bulk_refunds_run trace_print_lines trace_emit w0_def
          requests_of_submission_events sleeps_of_submission_events
          no_pause_when_twentieth_fails [where env = "refund_env 20", OF l bad]
          one_pause_when_twentieth_succeeds [where env = "refund_env 0", OF l good])
qed

subsection \<open>The report\<close>

lemma sum_list_filter_compl:
  "sum_list (map f xs)
     = sum_list (map f (filter P xs)) + (sum_list (map f (filter (\<lambda>x. \<not> P x) xs)) :: int)"
  by (induction xs) simp_all

lemma s_amount_succeeded_of: "s_amount (succeeded_of env item) = refundable (snd item)"
  by (simp add: succeeded_of_def succeeded_entry_of_def)

lemma sum_refundable_enumerate:
  "sum_list (map (\<lambda>item. refundable (snd item)) (enumerate i plan)) = sum_list (map refundable plan)"
proof -
  have "map (\<lambda>item. refundable (snd item)) (enumerate i plan)
          = map (refundable \<circ> snd) (enumerate i plan)"
    by (simp add: comp_def)
  also have "\<dots> = map refundable (map snd (enumerate i plan))"
    by (simp only: map_map)
  also have "\<dots> = map refundable plan"
    by (simp only: map_snd_enumerate)
  finally show ?thesis by (rule arg_cong)
qed

lemma sum_list_pos_eq_0:
  "(\<forall>x\<in>set xs. 0 < f x) \<Longrightarrow> sum_list (map f xs) = (0::int) \<longleftrightarrow> xs = []"
proof (cases xs)
  case Nil
  then show ?thesis by simp
next
  case (Cons x rest)
  assume a: "\<forall>x\<in>set xs. 0 < f x"
  then have "0 < f x" using Cons by simp
  moreover have "0 \<le> sum_list (map f rest)"
    using a Cons by (intro sum_list_nonneg) auto
  ultimately show ?thesis using Cons by simp
qed

lemma generate_compliance_report_fst:
  "fst (generate_compliance_report res eligible skipped total_preview w)
     = \<lparr>refunds_succeeded = length (succeeded res),
        refunds_failed = length (failed res),
        payments_skipped = length skipped,
        total_refunded = sum_list (map s_amount (succeeded res)),
        expected_total = total_preview,
        verdict = (if sum_list (map s_amount (succeeded res)) = total_preview then MATCH
                   else MISMATCH)\<rparr>"
  by (simp add: generate_compliance_report_def Let_def)

lemma recall_report_eq:
  "recall_report env eligible skipped w =
     Inr \<lparr>refunds_succeeded = length (filter (refund_ok env) (enumerate 1 eligible)),
          refunds_failed = length (filter (\<lambda>item. \<not> refund_ok env item) (enumerate 1 eligible)),
          payments_skipped = length skipped,
          total_refunded = sum_list (map (\<lambda>item. refundable (snd item))
                                       (filter (refund_ok env) (enumerate 1 eligible))),
          expected_total = sum_list (map refundable eligible),
          verdict = (if failed_amount env eligible = 0 then MATCH else MISMATCH)\<rparr>"
proof -
  have split: "sum_list (map refundable eligible)
      = sum_list (map (\<lambda>item. refundable (snd item)) (filter (refund_ok env) (enumerate 1 eligible)))
        + failed_amount env eligible"
    unfolding failed_amount_def
    using sum_list_filter_compl [of "\<lambda>item. refundable (snd item)" "enumerate 1 eligible" "refund_ok env"]
    by (simp only: sum_refundable_enumerate)
  have m: "\<And>items. map s_amount (map (succeeded_of env) items)
             = map (\<lambda>item. refundable (snd item)) items"
    by (simp add: s_amount_succeeded_of comp_def)
  show ?thesis
    unfolding recall_report_def Let_def
    using split
    by (simp add: dry_run_eq execute_bulk_refunds_run generate_compliance_report_fst m
          del: map_map)
qed

text \<open>
  C1 (as amended). The report's verification is \<open>MATCH\<close> exactly when the total of the
  succeeded refunds equals the total of the preview; the amounts of failed refunds are not
  added. For the preview, the execution and the report run on the same list: the expected
  total is the sum of the refundable amounts, it always equals the total refunded plus the
  refundable amounts of the payments whose refund failed, the verification is \<open>MATCH\<close> exactly
  when that failed amount is zero, and, the refundable amounts being positive, exactly when
  no refund failed.
\<close>

theorem C1_verification_compares_refunded_with_preview:
  "(let report = fst (generate_compliance_report res eligible skipped total_preview w)
    in total_refunded report = sum_list (map s_amount (succeeded res))
     \<and> expected_total report = total_preview
     \<and> (verdict report = MATCH \<longleftrightarrow> total_refunded report = expected_total report))
   \<and> (let report = projr (recall_report env eligible skipped w)
      in \<not> isl (recall_report env eligible skipped w)
       \<and> expected_total report = sum_list (map refundable eligible)
       \<and> expected_total report = total_refunded report + failed_amount env eligible
       \<and> (verdict report = MATCH \<longleftrightarrow> failed_amount env eligible = 0)
       \<and> ((\<forall>p\<in>set eligible. 0 < refundable p) \<longrightarrow>
            (verdict report = MATCH \<longleftrightarrow> refunds_failed report = 0)))"
proof (intro conjI)
  show "let report = fst (generate_compliance_report res eligible skipped total_preview w)
    in total_refunded report = sum_list (map s_amount (succeeded res))
     \<and> expected_total report = total_preview
     \<and> (verdict report = MATCH \<longleftrightarrow> total_refunded report = expected_total report)"
    by (simp add: generate_compliance_report_fst Let_def)
next
  let ?bad = "filter (\<lambda>item. \<not> refund_ok env item) (enumerate 1 eligible)"
  have split: "sum_list (map refundable eligible)
      = sum_list (map (\<lambda>item. refundable (snd item)) (filter (refund_ok env) (enumerate 1 eligible)))
        + failed_amount env eligible"
    unfolding failed_amount_def
    using sum_list_filter_compl [of "\<lambda>item. refundable (snd item)" "enumerate 1 eligible" "refund_ok env"]
    by (simp only: sum_refundable_enumerate)
  have pos: "(\<forall>p\<in>set eligible. 0 < refundable p) \<longrightarrow>
        (failed_amount env eligible = 0 \<longleftrightarrow> length ?bad = 0)"
  proof
    assume a: "\<forall>p\<in>set eligible. 0 < refundable p"
    have "\<forall>item\<in>set ?bad. 0 < refundable (snd item)"
      using a by (auto simp add: in_set_enumerate_eq)
    from sum_list_pos_eq_0 [OF this]
    show "failed_amount env eligible = 0 \<longleftrightarrow> length ?bad = 0"
      by (simp add: failed_amount_def)
  qed
  show "let report = projr (recall_report env eligible skipped w)
      in \<not> isl (recall_report env eligible skipped w)
       \<and> expected_total report = sum_list (map refundable eligible)
       \<and> expected_total report = total_refunded report + failed_amount env eligible
       \<and> (verdict report = MATCH \<longleftrightarrow> failed_amount env eligible = 0)
       \<and> ((\<forall>p\<in>set eligible. 0 < refundable p) \<longrightarrow>
            (verdict report = MATCH \<longleftrightarrow> refunds_failed report = 0))"
    unfolding Let_def recall_report_eq
    using split pos by simp
qed

lemma enumerate_plan_1000:
  "enumerate (Suc 0) plan_1000
     = [(1, demo_payment ''pi_a'' 500 0), (2, demo_payment ''pi_b'' 300 0),
        (3, demo_payment ''pi_c'' 349 149)]"
  by (simp add: plan_1000_def enumerate_simps eval_nat_numeral)

lemma refund_ok_refund_env: "refund_ok (refund_env bad) item \<longleftrightarrow> fst item \<noteq> bad"
  by (simp add: refund_ok_def refund_env_def)

text \<open>
  C1 (as amended) at a plan of 1000 whose three refunds succeed: 1000 refunded, 1000 expected,
  \<open>MATCH\<close>.
\<close>

theorem C1_verification_compares_refunded_with_preview_witness:
  "recall_report (refund_env 0) plan_1000 [] w0
     = Inr \<lparr>refunds_succeeded = 3, refunds_failed = 0, payments_skipped = 0,
            total_refunded = 1000, expected_total = 1000, verdict = MATCH\<rparr>"
proof -
  have r: "recall_report (refund_env 0) plan_1000 [] w0
     = Inr \<lparr>refunds_succeeded = 3, refunds_failed = 0, payments_skipped = 0,
            total_refunded = 1000, expected_total = 1000,
            verdict = (if failed_amount (refund_env 0) plan_1000 = 0 then MATCH else MISMATCH)\<rparr>"
    by (simp add: recall_report_eq enumerate_plan_1000 refund_ok_refund_env)
       (simp add: plan_1000_def demo_payment_def)
  have p: "\<forall>p\<in>set plan_1000. 0 < refundable p"
    by (simp add: plan_1000_def demo_payment_def)
  have f: "failed_amount (refund_env 0) plan_1000 = 0"
    by (simp add: failed_amount_def enumerate_plan_1000 refund_ok_refund_env)
  from C1_verification_compares_refunded_with_preview 
         [where env = "refund_env 0" and eligible = plan_1000 and skipped = "[]" and w = w0]
  have "verdict (projr (recall_report (refund_env 0) plan_1000 [] w0)) = MATCH
          \<longleftrightarrow> failed_amount (refund_env 0) plan_1000 = 0"
    unfolding Let_def by blast
  with f have "verdict (projr (recall_report (refund_env 0) plan_1000 [] w0)) = MATCH" by simp
  with r show ?thesis by (simp split: if_splits)
qed

text \<open>
  C1 as stated fails: on a plan of 1000 whose refund of 300 is declined and whose other
  refunds succeed, the report shows 700 refunded against 1000 expected and \<open>MISMATCH\<close>,
  although 700 refunded plus 300 failed is the 1000 planned.
\<close>

theorem C1_failed_refund_reported_as_mismatch:
  "recall_report (refund_env 2) plan_1000 [] w0
     = Inr \<lparr>refunds_succeeded = 2, refunds_failed = 1, payments_skipped = 0,
            total_refunded = 700, expected_total = 1000, verdict = MISMATCH\<rparr>
   \<and> failed_amount (refund_env 2) plan_1000 = 300
   \<and> (700::int) + 300 = 1000"
  by (simp add: recall_report_eq failed_amount_def enumerate_plan_1000 refund_ok_refund_env)
     (simp add: plan_1000_def demo_payment_def)

text \<open>
  C9 at a plan of three payments whose second refund is declined: three submissions in the
  order of the plan, the first and the third payment in \<^verbatim>\<open>succeeded\<close>, the second in
  \<^verbatim>\<open>failed\<close>, no pause.
\<close>

theorem C9_one_submission_per_target_in_order_witness:
  "map rf_payment_intent
       (map (\<lambda>c. case c of Refund_create r \<Rightarrow> r)
          (requests_of (trace (snd (execute_bulk_refunds (refund_env 2) plan_1000 w0)))))
     = [''pi_a'', ''pi_b'', ''pi_c'']
   \<and> map s_pi_id (succeeded (projr (fst (execute_bulk_refunds (refund_env 2) plan_1000 w0))))
     = [''pi_a'', ''pi_c'']
   \<and> map f_pi_id (failed (projr (fst (execute_bulk_refunds (refund_env 2) plan_1000 w0))))
     = [''pi_b'']
   \<and> sleeps_of (trace (snd (execute_bulk_refunds (refund_env 2) plan_1000 w0))) = []"
proof -
  from C9_one_submission_per_target_in_order [of "refund_env 2" plan_1000 w0]
  have r: "fst (execute_bulk_refunds (refund_env 2) plan_1000 w0)
       = Inr \<lparr>succeeded = map (succeeded_of (refund_env 2))
                            (filter (refund_ok (refund_env 2)) (enumerate 1 plan_1000)),
              failed = map (failed_of (refund_env 2))
                         (filter (\<lambda>item. \<not> refund_ok (refund_env 2) item)
                            (enumerate 1 plan_1000))\<rparr>"
    and q: "requests_of (trace (snd (execute_bulk_refunds (refund_env 2) plan_1000 w0)))
       = requests_of (trace w0) @ map (submission (refund_env 2)) (enumerate 1 plan_1000)"
    and s: "sleeps_of (trace (snd (execute_bulk_refunds (refund_env 2) plan_1000 w0)))
       = sleeps_of (trace w0)
           @ map (\<lambda>item. 1) (filter (pause_after (refund_env 2)) (enumerate 1 plan_1000))"
    unfolding Let_def by blast+
  show ?thesis
    unfolding r q s
    by (simp add: enumerate_plan_1000 refund_ok_refund_env w0_def pause_after_def
          submission_def refund_request_of_def succeeded_of_def succeeded_entry_of_def
          failed_of_def failed_entry_of_def demo_payment_def)
qed

end
